theory Spec2Isabelle
  imports Complex_Main "HOL-Library.AList"
begin

section \<open>Data model\<close>

text \<open>
  A calendar date is the number of days since 1970-01-01, so that
  \<^verbatim>\<open>date + timedelta(days=1)\<close> is \<open>d + 1\<close> and 2008-01-01 is day 13879.
  A \<^verbatim>\<open>Decimal\<close> is modelled by the rational number it denotes: finite values with
  exact arithmetic (the 28-digit context precision, infinities and NaNs of the
  decimal module are outside the model).
\<close>

type_synonym date = int

text \<open>The raw values a ticket field or a change row can hold.\<close>

datatype pyval = PyNone | PyStr string | PyInt int

datatype error = KeyError | TypeError | ValueError | InvalidOperation | DivisionByZero

text \<open>A row of the change query: \<^verbatim>\<open>(field, time, oldvalue, newvalue)\<close>, the time in
  microseconds since the epoch.\<close>

type_synonym row = "string \<times> int \<times> pyval \<times> pyval"

text \<open>A timetable is a dictionary from dates to Decimals, kept as an association list
  with one pair per key.\<close>

type_synonym timetable = "(date \<times> rat) list"

text \<open>A ticket as \<^verbatim>\<open>execute_query\<close> returns it; \<open>t_time\<close> is \<^verbatim>\<open>t['time'].date()\<close> and
  \<open>t_fields\<close> reads a field by its name.\<close>

record ticket =
  t_id :: nat
  t_time :: date
  t_status :: pyval
  t_owner :: pyval
  t_fields :: "string \<Rightarrow> pyval"

text \<open>
  What the plugin takes from its surroundings: the configured field names
  (\<^verbatim>\<open>EstimationToolsBase\<close>), the closed states (\<^verbatim>\<open>get_closed_states()\<close>), the change
  query of the database (the rows selected for a ticket id and a field name, in the
  order of the query), and the constructors \<^verbatim>\<open>Decimal(str)\<close> and \<^verbatim>\<open>int(str)\<close> of
  Python, \<open>None\<close> where they raise.
\<close>

record env =
  remaining_field :: string
  spent_field :: string
  closed_states :: "string list"
  db_query :: "nat \<Rightarrow> string \<Rightarrow> row list"
  Decimal_str :: "string \<Rightarrow> rat option"
  int_str :: "string \<Rightarrow> int option"

record options =
  startdate :: date
  enddate :: date
  today :: date
  expected :: string

section \<open>Dictionary and value helpers\<close>

text \<open>\<^verbatim>\<open>from_utimestamp(row_time).date()\<close>: the UTC day of a microsecond timestamp.\<close>

definition from_utimestamp_date :: "int \<Rightarrow> date" where
  "from_utimestamp_date row_time = row_time div 86400000000"

text \<open>\<^verbatim>\<open>not estimate\<close>: None, the empty string and the number 0 are false.\<close>

fun py_not :: "pyval \<Rightarrow> bool" where
  "py_not PyNone = True"
| "py_not (PyStr s) = (s = [])"
| "py_not (PyInt n) = (n = 0)"

text \<open>\<^verbatim>\<open>status in self.closed_states\<close>: only a string equals a string.\<close>

fun py_in :: "pyval \<Rightarrow> string list \<Rightarrow> bool" where
  "py_in (PyStr s) cs = (s \<in> set cs)"
| "py_in PyNone cs = False"
| "py_in (PyInt n) cs = False"

text \<open>\<^verbatim>\<open>timetable[k] += v\<close>: the key is read first (KeyError), then the sum is
  formed (TypeError when \<open>v\<close> is None), then stored.\<close>

definition dict_iadd :: "timetable \<Rightarrow> date \<Rightarrow> rat option \<Rightarrow> error + timetable" where
  "dict_iadd tt k v =
     (case map_of tt k of
        None \<Rightarrow> Inl KeyError
      | Some old \<Rightarrow>
          (case v of
             None \<Rightarrow> Inl TypeError
           | Some x \<Rightarrow> Inr (AList.update k (old + x) tt)))"

section \<open>\<^verbatim>\<open>BurndownChart._cast_estimate\<close>\<close>

definition cast_estimate :: "(string \<Rightarrow> rat option) \<Rightarrow> pyval \<Rightarrow> rat option" where
  "cast_estimate D estimate =
     (if py_not estimate then Some 0
      else (case estimate of
              PyStr s \<Rightarrow> D s
            | PyInt n \<Rightarrow> Some (of_int n)
            | PyNone \<Rightarrow> None))"

section \<open>\<^verbatim>\<open>BurndownChart._calculate_timetable\<close> and \<^verbatim>\<open>_calculate_timetable_spent\<close>\<close>

text \<open>The first loop of both methods: an entry \<^verbatim>\<open>Decimal(0)\<close> for each day of the period.\<close>

function init_timetable :: "date \<Rightarrow> date \<Rightarrow> timetable \<Rightarrow> timetable" where
  "init_timetable current_date end_date timetable =
     (if current_date \<le> end_date
      then init_timetable (current_date + 1) end_date (AList.update current_date 0 timetable)
      else timetable)"
  by pat_completeness auto
termination
  by (relation "measure (\<lambda>(c, e, t). nat (e + 1 - c))") auto

declare init_timetable.simps [simp del]

text \<open>The state of the loop over the change rows of one ticket.\<close>

record history =
  estimate_history :: "date \<rightharpoonup> rat"
  status_history :: "date \<rightharpoonup> pyval"
  earliest_estimate :: "rat option"
  earliest_status :: pyval

definition empty_history :: history where
  "empty_history =
     \<lparr>estimate_history = Map.empty, status_history = Map.empty,
      earliest_estimate = None, earliest_status = PyNone\<rparr>"

text \<open>The body of the loop over the rows; \<open>fld\<close> is \<^verbatim>\<open>self.remaining_field\<close> in the one
  method and \<^verbatim>\<open>self.spent_field\<close> in the other, which are the same text otherwise.\<close>

definition history_step :: "(string \<Rightarrow> rat option) \<Rightarrow> string \<Rightarrow> history \<Rightarrow> row \<Rightarrow> history" where
  "history_step D fld h r =
     (case r of (row_field, row_time, row_old, row_new) \<Rightarrow>
        let event_date = from_utimestamp_date row_time in
        if row_field = fld then
          let h1 = (case cast_estimate D row_new of
                      Some new_value \<Rightarrow>
                        h\<lparr>estimate_history := (estimate_history h)(event_date \<mapsto> new_value)\<rparr>
                    | None \<Rightarrow> h)
          in (if earliest_estimate h1 = None
              then h1\<lparr>earliest_estimate := cast_estimate D row_old\<rparr>
              else h1)
        else if row_field = ''status'' then
          let h1 = h\<lparr>status_history := (status_history h)(event_date \<mapsto> row_new)\<rparr>
          in (if earliest_status h1 = PyNone
              then h1\<lparr>earliest_status := row_old\<rparr>
              else h1)
        else h)"

definition build_history :: "(string \<Rightarrow> rat option) \<Rightarrow> string \<Rightarrow> row list \<Rightarrow> history" where
  "build_history D fld rows = foldl (history_step D fld) empty_history rows"

text \<open>Setting effort and status on the creation date when the rows did not.\<close>

definition seed_creation :: "date \<Rightarrow> rat \<Rightarrow> pyval \<Rightarrow> history \<Rightarrow> history" where
  "seed_creation creation_date latest_estimate latest_status h =
     (let h1 = (if estimate_history h creation_date = None
                then (case earliest_estimate h of
                        Some e \<Rightarrow> h\<lparr>estimate_history := (estimate_history h)(creation_date \<mapsto> e)\<rparr>
                      | None \<Rightarrow>
                          h\<lparr>estimate_history := (estimate_history h)(creation_date \<mapsto> latest_estimate)\<rparr>)
                else h)
      in (if status_history h1 creation_date = None
          then (if earliest_status h1 \<noteq> PyNone
                then h1\<lparr>status_history := (status_history h1)(creation_date \<mapsto> earliest_status h1)\<rparr>
                else h1\<lparr>status_history := (status_history h1)(creation_date \<mapsto> latest_status)\<rparr>)
          else h1))"

text \<open>\<^verbatim>\<open>latest_estimate\<close>: the cast of the ticket's current value, 0 when it is None.\<close>

definition latest_estimate :: "env \<Rightarrow> string \<Rightarrow> ticket \<Rightarrow> rat" where
  "latest_estimate e fld t =
     (case cast_estimate (Decimal_str e) (t_fields t fld) of None \<Rightarrow> 0 | Some v \<Rightarrow> v)"

text \<open>The two dictionaries of a ticket as they stand before the last loop.\<close>

definition ticket_history :: "env \<Rightarrow> string \<Rightarrow> ticket \<Rightarrow> history" where
  "ticket_history e fld t =
     seed_creation (t_time t) (latest_estimate e fld t) (t_status t)
       (build_history (Decimal_str e) fld (db_query e (t_id t) fld))"

text \<open>The last loop of \<^verbatim>\<open>_calculate_timetable\<close>, from the creation date to the end date.\<close>

function remaining_loop ::
  "string list \<Rightarrow> date \<Rightarrow> date \<Rightarrow> (date \<rightharpoonup> rat) \<Rightarrow> (date \<rightharpoonup> pyval) \<Rightarrow>
   date \<Rightarrow> rat option \<Rightarrow> bool option \<Rightarrow> timetable \<Rightarrow> error + timetable" where
  "remaining_loop cstates start_date end_date eh sh current_date current_estimate is_open timetable =
     (if current_date \<le> end_date then
        (let is_open' = (case sh current_date of
                           Some s \<Rightarrow> Some (\<not> py_in s cstates)
                         | None \<Rightarrow> is_open);
             current_estimate' = (case eh current_date of
                                    Some v \<Rightarrow> Some v
                                  | None \<Rightarrow> current_estimate)
         in if start_date \<le> current_date \<and> is_open' = Some True then
              (case dict_iadd timetable current_date current_estimate' of
                 Inl err \<Rightarrow> Inl err
               | Inr timetable' \<Rightarrow>
                   remaining_loop cstates start_date end_date eh sh (current_date + 1)
                     current_estimate' is_open' timetable')
            else remaining_loop cstates start_date end_date eh sh (current_date + 1)
                   current_estimate' is_open' timetable)
      else Inr timetable)"
  by pat_completeness auto
termination
  by (relation "measure (\<lambda>(cl, s, e, eh, sh, c, ce, io, t). nat (e + 1 - c))") auto

declare remaining_loop.simps [simp del]

text \<open>The last loop of \<^verbatim>\<open>_calculate_timetable_spent\<close>: no status is read.\<close>

function spent_loop ::
  "date \<Rightarrow> date \<Rightarrow> (date \<rightharpoonup> rat) \<Rightarrow> date \<Rightarrow> rat option \<Rightarrow> timetable \<Rightarrow> error + timetable" where
  "spent_loop start_date end_date eh current_date current_estimate timetable =
     (if current_date \<le> end_date then
        (let current_estimate' = (case eh current_date of
                                    Some v \<Rightarrow> Some v
                                  | None \<Rightarrow> current_estimate)
         in if start_date \<le> current_date then
              (case dict_iadd timetable current_date current_estimate' of
                 Inl err \<Rightarrow> Inl err
               | Inr timetable' \<Rightarrow>
                   spent_loop start_date end_date eh (current_date + 1) current_estimate' timetable')
            else spent_loop start_date end_date eh (current_date + 1) current_estimate' timetable)
      else Inr timetable)"
  by pat_completeness auto
termination
  by (relation "measure (\<lambda>(s, e, eh, c, ce, t). nat (e + 1 - c))") auto

declare spent_loop.simps [simp del]

text \<open>The body of \<^verbatim>\<open>for t in tickets\<close> in each method.\<close>

definition remaining_ticket :: "env \<Rightarrow> options \<Rightarrow> timetable \<Rightarrow> ticket \<Rightarrow> error + timetable" where
  "remaining_ticket e opts timetable t =
     (let h = ticket_history e (remaining_field e) t
      in remaining_loop (closed_states e) (startdate opts) (enddate opts)
           (estimate_history h) (status_history h) (t_time t) None None timetable)"

definition spent_ticket :: "env \<Rightarrow> options \<Rightarrow> timetable \<Rightarrow> ticket \<Rightarrow> error + timetable" where
  "spent_ticket e opts timetable t =
     (let h = ticket_history e (spent_field e) t
      in spent_loop (startdate opts) (enddate opts) (estimate_history h) (t_time t) None timetable)"

text \<open>A loop over the tickets that an exception leaves.\<close>

fun for_tickets ::
  "(timetable \<Rightarrow> ticket \<Rightarrow> error + timetable) \<Rightarrow> ticket list \<Rightarrow> timetable \<Rightarrow> error + timetable" where
  "for_tickets body [] timetable = Inr timetable"
| "for_tickets body (t # ts) timetable =
     (case body timetable t of
        Inl err \<Rightarrow> Inl err
      | Inr timetable' \<Rightarrow> for_tickets body ts timetable')"

definition calculate_timetable :: "env \<Rightarrow> options \<Rightarrow> ticket list \<Rightarrow> error + timetable" where
  "calculate_timetable e opts tickets =
     for_tickets (remaining_ticket e opts) tickets
       (init_timetable (startdate opts) (enddate opts) [])"

definition calculate_timetable_spent :: "env \<Rightarrow> options \<Rightarrow> ticket list \<Rightarrow> error + timetable" where
  "calculate_timetable_spent e opts tickets =
     for_tickets (spent_ticket e opts) tickets
       (init_timetable (startdate opts) (enddate opts) [])"

section \<open>\<^verbatim>\<open>BurndownChart._round\<close> and \<^verbatim>\<open>BurndownChart._scale_data\<close>\<close>

text \<open>
  \<^verbatim>\<open>decimal_.quantize(Decimal("0.01"), ROUND_HALF_UP)\<close> gives a Decimal of exponent -2:
  a sign and a number of hundredths, ties rounded away from zero. A negative number
  that rounds to zero keeps its sign, as the decimal module has it.
\<close>

definition round_decimal :: "rat \<Rightarrow> bool \<times> nat" where
  "round_decimal x = (x < 0, nat \<lfloor>\<bar>x\<bar> * 100 + 1 / 2\<rfloor>)"

definition digit_char :: "nat \<Rightarrow> char" where
  "digit_char n = ''0123456789'' ! (n mod 10)"

fun str_nat :: "nat \<Rightarrow> string" where
  "str_nat n = (if n < 10 then [digit_char n] else str_nat (n div 10) @ [digit_char (n mod 10)])"

declare str_nat.simps [simp del]

text \<open>\<^verbatim>\<open>str\<close> of a Decimal of exponent -2: always two digits after the point.\<close>

definition str_decimal :: "bool \<times> nat \<Rightarrow> string" where
  "str_decimal q =
     (case q of (negative, hundredths) \<Rightarrow>
        (if negative then ''-'' else []) @ str_nat (hundredths div 100) @ ''.'' @
        [digit_char (hundredths mod 100 div 10), digit_char (hundredths mod 10)])"

text \<open>Division of Decimals: a zero divisor raises.\<close>

definition decimal_div :: "rat \<Rightarrow> rat \<Rightarrow> error + rat" where
  "decimal_div a b =
     (if b = 0 then (if a = 0 then Inl InvalidOperation else Inl DivisionByZero)
      else Inr (a / b))"

definition dict_get :: "timetable \<Rightarrow> date \<Rightarrow> error + rat" where
  "dict_get tt k = (case map_of tt k of None \<Rightarrow> Inl KeyError | Some v \<Rightarrow> Inr v)"

text \<open>A list comprehension whose element expression can raise.\<close>

fun mapE :: "('a \<Rightarrow> error + 'b) \<Rightarrow> 'a list \<Rightarrow> error + 'b list" where
  "mapE f [] = Inr []"
| "mapE f (x # xs) =
     (case f x of
        Inl err \<Rightarrow> Inl err
      | Inr y \<Rightarrow> (case mapE f xs of Inl err \<Rightarrow> Inl err | Inr ys \<Rightarrow> Inr (y # ys)))"

definition scale_y :: "timetable \<Rightarrow> rat \<Rightarrow> date \<Rightarrow> error + string" where
  "scale_y timetable maxhours d =
     (case dict_get timetable d of
        Inl err \<Rightarrow> Inl err
      | Inr v \<Rightarrow>
          (case decimal_div (v * 100) maxhours of
             Inl err \<Rightarrow> Inl err
           | Inr q \<Rightarrow> Inr (str_decimal (round_decimal q))))"

definition scale_x :: "nat \<Rightarrow> nat \<Rightarrow> error + string" where
  "scale_x len x =
     (case decimal_div (of_nat x * 100) (of_int (int len - 1)) of
        Inl err \<Rightarrow> Inl err
      | Inr q \<Rightarrow> Inr (str_decimal (round_decimal q)))"

text \<open>\<^verbatim>\<open>maxhours\<close>: the largest of the values and of \<^verbatim>\<open>int(options.get('expected', 0))\<close>,
  replaced by 100 when it is not positive.\<close>

definition maxhours_of :: "int \<Rightarrow> timetable \<Rightarrow> rat" where
  "maxhours_of ex timetable =
     (let maxhours = Max (set (map snd timetable @ [of_int ex]))
      in if maxhours \<le> 0 then 100 else maxhours)"

definition scale_data ::
  "env \<Rightarrow> options \<Rightarrow> timetable \<Rightarrow> error + (string list \<times> string list \<times> rat)" where
  "scale_data e opts timetable =
     (let dates = sort (map fst timetable) in
      case int_str e (expected opts) of
        None \<Rightarrow> Inl ValueError
      | Some ex \<Rightarrow>
          (let maxhours = maxhours_of ex timetable
           in case mapE (scale_y timetable maxhours) dates of
                Inl err \<Rightarrow> Inl err
              | Inr ydata \<Rightarrow>
                  (case mapE (scale_x (length dates)) [0..<length dates] of
                     Inl err \<Rightarrow> Inl err
                   | Inr xdata \<Rightarrow>
                       (let remaining_days = length (filter (\<lambda>d. today opts < d) dates);
                            ydata' = (if remaining_days \<noteq> 0
                                      then take (length ydata - remaining_days) ydata @
                                           replicate remaining_days ''-1''
                                      else ydata)
                        in Inr (xdata, ydata', maxhours)))))"

section \<open>The sums of \<^verbatim>\<open>WorkloadChart.expand_macro\<close>\<close>

text \<open>
  The loop over the tickets keeps \<^verbatim>\<open>sum\<close> (here \<open>acc\<close>) and the dictionary \<^verbatim>\<open>estimations\<close>. The
  floats stay abstract: \<open>float_of\<close> is \<^verbatim>\<open>float(...)\<close>, \<open>None\<close> where it raises, and
  \<open>fadd\<close> the addition of floats. The bare \<^verbatim>\<open>except\<close> leaves both unchanged, since
  \<^verbatim>\<open>float\<close> is the first statement of the \<^verbatim>\<open>try\<close> block.
\<close>

definition workload_step ::
  "(pyval \<Rightarrow> 'f option) \<Rightarrow> ('f \<Rightarrow> 'f \<Rightarrow> 'f) \<Rightarrow> env \<Rightarrow>
   'f \<times> (pyval \<rightharpoonup> 'f) \<Rightarrow> ticket \<Rightarrow> 'f \<times> (pyval \<rightharpoonup> 'f)" where
  "workload_step float_of fadd e st t =
     (case st of (acc, estimations) \<Rightarrow>
        if py_in (t_status t) (closed_states e) then (acc, estimations)
        else (case float_of (t_fields t (remaining_field e)) of
                None \<Rightarrow> (acc, estimations)
              | Some estimation \<Rightarrow>
                  (let owner = t_owner t;
                       acc' = fadd acc estimation
                   in (case estimations owner of
                         Some x \<Rightarrow> (acc', estimations(owner \<mapsto> fadd x estimation))
                       | None \<Rightarrow> (acc', estimations(owner \<mapsto> estimation))))))"

definition workload_sums ::
  "(pyval \<Rightarrow> 'f option) \<Rightarrow> ('f \<Rightarrow> 'f \<Rightarrow> 'f) \<Rightarrow> 'f \<Rightarrow> env \<Rightarrow> ticket list \<Rightarrow>
   'f \<times> (pyval \<rightharpoonup> 'f)" where
  "workload_sums float_of fadd fzero e tickets =
     foldl (workload_step float_of fadd e) (fzero, Map.empty) tickets"

section \<open>Notions of the specification\<close>

text \<open>
  Forward-fill as the specification words it: the value carried on day \<open>d\<close> is the
  entry of the latest day in \<open>c..d\<close> that has one, and \<open>init\<close> when there is none.
\<close>

function carry_from :: "'a option \<Rightarrow> (date \<rightharpoonup> 'a) \<Rightarrow> date \<Rightarrow> date \<Rightarrow> 'a option" where
  "carry_from init h c d =
     (if d < c then init
      else (case h d of Some v \<Rightarrow> Some v | None \<Rightarrow> carry_from init h c (d - 1)))"
  by pat_completeness auto
termination
  by (relation "measure (\<lambda>(i, h, c, d). nat (d + 1 - c))") auto

declare carry_from.simps [simp del]

text \<open>Whether each status of a per-day status dictionary is an open one.\<close>

definition open_history :: "string list \<Rightarrow> (date \<rightharpoonup> pyval) \<Rightarrow> (date \<rightharpoonup> bool)" where
  "open_history cstates sh = (\<lambda>d. map_option (\<lambda>s. \<not> py_in s cstates) (sh d))"

text \<open>The carried estimate of a ticket on a day (0 before its creation), and whether
  the ticket is open on that day according to its carried status.\<close>

definition estimate_on :: "env \<Rightarrow> string \<Rightarrow> ticket \<Rightarrow> date \<Rightarrow> rat" where
  "estimate_on e fld t d =
     (case carry_from None (estimate_history (ticket_history e fld t)) (t_time t) d of
        Some v \<Rightarrow> v
      | None \<Rightarrow> 0)"

definition open_on :: "env \<Rightarrow> string \<Rightarrow> ticket \<Rightarrow> date \<Rightarrow> bool" where
  "open_on e fld t d =
     (carry_from None (open_history (closed_states e) (status_history (ticket_history e fld t)))
        (t_time t) d = Some True)"

text \<open>The old value, the new value and the timestamp of a change row.\<close>

definition row_old :: "row \<Rightarrow> pyval" where
  "row_old r = fst (snd (snd r))"

definition row_new :: "row \<Rightarrow> pyval" where
  "row_new r = snd (snd (snd r))"

definition row_time :: "row \<Rightarrow> int" where
  "row_time r = fst (snd r)"

text \<open>The rows of a change log that change field \<open>fld\<close> on day \<open>d\<close>, in the order of
  the log, and those among them whose new value casts to a number.\<close>

definition changes_on :: "string \<Rightarrow> date \<Rightarrow> row list \<Rightarrow> row list" where
  "changes_on fld d rows =
     filter (\<lambda>r. fst r = fld \<and> from_utimestamp_date (row_time r) = d) rows"

definition numeric_changes_on ::
  "(string \<Rightarrow> rat option) \<Rightarrow> string \<Rightarrow> date \<Rightarrow> row list \<Rightarrow> row list" where
  "numeric_changes_on D fld d rows =
     filter (\<lambda>r. cast_estimate D (row_new r) \<noteq> None) (changes_on fld d rows)"

section \<open>Sample surroundings for the examples\<close>

text \<open>
  The examples below need an instance of the constructors. \<open>digits_value\<close> reads a
  string of the digits 0 to 9 and rejects every other string. The examples apply it
  only to such strings and to the string \<^verbatim>\<open>abc\<close>; there \<^verbatim>\<open>Decimal\<close>, \<^verbatim>\<open>int\<close> and \<^verbatim>\<open>float\<close> of
  Python give the same number, and raise on \<^verbatim>\<open>abc\<close>.
\<close>

fun digits_value :: "string \<Rightarrow> nat \<Rightarrow> nat option" where
  "digits_value [] acc = Some acc"
| "digits_value (c # cs) acc =
     (if c \<in> set ''0123456789''
      then digits_value cs (10 * acc + (of_char c - 48))
      else None)"

definition digits_Decimal :: "string \<Rightarrow> rat option" where
  "digits_Decimal s = (if s = [] then None else map_option of_nat (digits_value s 0))"

definition digits_int :: "string \<Rightarrow> int option" where
  "digits_int s = (if s = [] then None else map_option int (digits_value s 0))"

text \<open>
  A sample installation for the examples: the fields \<^verbatim>\<open>estimatedhours\<close> and
  \<^verbatim>\<open>totalhours\<close>, the closed state \<^verbatim>\<open>closed\<close>, and the change rows of the tickets 1 to 5 (any other ticket has none). The
  query returns the rows of the ticket on the requested field or on the status, as the
  SQL selects them. 2008-01-01 starts at 1199145600 seconds, day 13879.
\<close>

definition sample_changes :: "nat \<Rightarrow> row list" where
  "sample_changes i =
     (if i = 1 then [(''estimatedhours'', 1199350000000000, PyStr ''10'', PyStr ''4'')]
      else if i = 2 then [(''status'', 1199268000000000, PyStr ''new'', PyStr ''closed''),
                          (''status'', 1199440800000000, PyStr ''closed'', PyStr ''reopened'')]
      else if i = 3 then [(''status'', 1199350000000000, PyStr ''new'', PyStr ''closed'')]
      else if i = 4 then [(''estimatedhours'', 1199268000000000, PyStr ''10'', PyStr ''5''),
                          (''estimatedhours'', 1199286000000000, PyStr ''5'', PyStr ''abc'')]
      else if i = 5 then [(''estimatedhours'', 1199268000000000, PyStr ''10'', PyStr ''5''),
                          (''status'', 1199268000000000, PyStr ''new'', PyStr ''closed''),
                          (''estimatedhours'', 1199286000000000, PyStr ''5'', PyStr ''7''),
                          (''status'', 1199286000000000, PyStr ''closed'', PyStr ''reopened'')]
      else [])"

definition sample_env :: env where
  "sample_env =
     \<lparr>remaining_field = ''estimatedhours'', spent_field = ''totalhours'',
      closed_states = [''closed''],
      db_query = (\<lambda>i f. filter (\<lambda>r. fst r = f \<or> fst r = ''status'') (sample_changes i)),
      Decimal_str = digits_Decimal, int_str = digits_int\<rparr>"

definition sample_opts :: options where
  "sample_opts = \<lparr>startdate = 13879, enddate = 13883, today = 13883, expected = ''0''\<rparr>"

text \<open>Ticket \<open>i\<close> of the sample, created on 2008-01-01, with its current status and
  current value of \<^verbatim>\<open>estimatedhours\<close>; \<^verbatim>\<open>totalhours\<close> is 2.\<close>

definition sample_ticket :: "nat \<Rightarrow> string \<Rightarrow> string \<Rightarrow> ticket" where
  "sample_ticket i status estimate =
     \<lparr>t_id = i, t_time = 13879, t_status = PyStr status, t_owner = PyStr ''joe'',
      t_fields = (\<lambda>f. if f = ''estimatedhours'' then PyStr estimate
                       else if f = ''totalhours'' then PyStr ''2'' else PyNone)\<rparr>"

text \<open>\<^verbatim>\<open>float\<close> on the sample values, with rationals for the floats.\<close>

definition sample_float :: "pyval \<Rightarrow> rat option" where
  "sample_float v =
     (case v of PyStr s \<Rightarrow> digits_Decimal s | PyInt n \<Rightarrow> Some (of_int n) | PyNone \<Rightarrow> None)"

section \<open>Association lists, the first loop and forward-fill\<close>

lemma update_fresh: "k \<notin> fst ` set al \<Longrightarrow> AList.update k v al = al @ [(k, v)]"
  by (induction al) auto

lemma update_present_keys: "k \<in> fst ` set al \<Longrightarrow> map fst (AList.update k v al) = map fst al"
  by (simp add: update_keys)

lemma init_timetable_append:
  "\<forall>k \<in> fst ` set tt. k < c \<Longrightarrow> init_timetable c e tt = tt @ map (\<lambda>d. (d, 0)) [c..e]"
proof (induction c e tt rule: init_timetable.induct)
  case (1 c e tt)
  show ?case
  proof (cases "c \<le> e")
    case True
    have fresh: "c \<notin> fst ` set tt" using "1.prems" by auto
    have upd: "AList.update c 0 tt = tt @ [(c, 0)]" by (rule update_fresh [OF fresh])
    have below: "\<forall>k \<in> fst ` set (AList.update c 0 tt). k < c + 1"
      using "1.prems" by (auto simp: upd)
    have "init_timetable c e tt = init_timetable (c + 1) e (AList.update c 0 tt)"
      using True by (subst init_timetable.simps) simp
    also have "\<dots> = AList.update c 0 tt @ map (\<lambda>d. (d, 0)) [c + 1..e]"
      by (rule "1.IH" [OF True below])
    also have "\<dots> = tt @ map (\<lambda>d. (d, 0)) [c..e]"
      using True by (simp add: upd upto_rec1 [of c e])
    finally show ?thesis .
  next
    case False
    then show ?thesis by (subst init_timetable.simps) simp
  qed
qed

lemma init_timetable_empty: "init_timetable s e [] = map (\<lambda>d. (d, 0)) [s..e]"
  using init_timetable_append [of "[]" s e] by simp

lemma carry_from_before: "d < c \<Longrightarrow> carry_from init h c d = init"
  by (subst carry_from.simps) simp

lemma carry_from_shift:
  "c \<le> d \<Longrightarrow>
   carry_from init h c d = carry_from (case h c of Some v \<Rightarrow> Some v | None \<Rightarrow> init) h (c + 1) d"
proof (induction init h c d rule: carry_from.induct)
  case (1 init h c d)
  show ?case
  proof (cases "d = c")
    case True
    then show ?thesis
      by (subst carry_from.simps, subst (2) carry_from.simps)
         (simp add: carry_from_before split: option.splits)
  next
    case False
    with "1.prems" have lt: "c \<le> d - 1" "\<not> d < c" "\<not> d < c + 1" by auto
    show ?thesis
    proof (cases "h d")
      case None
      then show ?thesis
        using "1.IH" [OF lt(2) None lt(1)] lt
        by (subst carry_from.simps, subst (2) carry_from.simps) simp
    next
      case (Some v)
      then show ?thesis
        using lt by (subst carry_from.simps, subst (2) carry_from.simps) simp
    qed
  qed
qed

lemma carry_from_here: "carry_from init h c c = (case h c of Some v \<Rightarrow> Some v | None \<Rightarrow> init)"
  by (subst carry_from.simps) (simp add: carry_from_before split: option.splits)


lemma open_step:
  "(case sh c of Some s \<Rightarrow> Some (\<not> py_in s cs) | None \<Rightarrow> io) =
   (case open_history cs sh c of Some b \<Rightarrow> Some b | None \<Rightarrow> io)"
  by (simp add: open_history_def split: option.splits)

lemma remaining_loop_result:
  assumes keys: "\<forall>d. start \<le> d \<and> cur \<le> d \<and> d \<le> end_date \<longrightarrow> d \<in> fst ` set tt"
      and est: "ce \<noteq> None \<or> eh cur \<noteq> None"
  shows "\<exists>tt'. remaining_loop cs start end_date eh sh cur ce io tt = Inr tt' \<and>
           map fst tt' = map fst tt \<and>
           (\<forall>d. map_of tt' d =
              (if start \<le> d \<and> cur \<le> d \<and> d \<le> end_date \<and>
                  carry_from io (open_history cs sh) cur d = Some True
               then map_option
                      (\<lambda>x. x + (case carry_from ce eh cur d of Some v \<Rightarrow> v | None \<Rightarrow> 0))
                      (map_of tt d)
               else map_of tt d))"
  using keys est
proof (induction n \<equiv> "nat (end_date + 1 - cur)" arbitrary: cur ce io tt)
  case 0
  then have gt: "\<not> cur \<le> end_date" by simp
  have "remaining_loop cs start end_date eh sh cur ce io tt = Inr tt"
    using gt by (subst remaining_loop.simps) simp
  then show ?case using gt by auto
next
  case (Suc n)
  then have le: "cur \<le> end_date" by simp
  define io' where "io' = (case sh cur of Some s \<Rightarrow> Some (\<not> py_in s cs) | None \<Rightarrow> io)"
  define ce' where "ce' = (case eh cur of Some v \<Rightarrow> Some v | None \<Rightarrow> ce)"
  have "ce' \<noteq> None"
    using Suc.prems(2) by (auto simp: ce'_def split: option.splits)
  then obtain v where v: "ce' = Some v" by blast
  have n: "n = nat (end_date + 1 - (cur + 1))" using Suc.hyps(2) by simp
  have io'_alt: "io' = (case open_history cs sh cur of Some b \<Rightarrow> Some b | None \<Rightarrow> io)"
    unfolding io'_def by (rule open_step)
  have shiftE: "carry_from ce eh cur d = carry_from ce' eh (cur + 1) d" if "cur \<le> d" for d
    unfolding ce'_def by (rule carry_from_shift [OF that])
  have shiftO: "carry_from io (open_history cs sh) cur d =
                carry_from io' (open_history cs sh) (cur + 1) d" if "cur \<le> d" for d
    unfolding io'_alt by (rule carry_from_shift [OF that])
  have hereE: "carry_from ce eh cur cur = Some v"
    using v by (simp add: carry_from_here ce'_def)
  have hereO: "carry_from io (open_history cs sh) cur cur = io'"
    by (simp add: carry_from_here io'_alt)
  have est': "ce' \<noteq> None \<or> eh (cur + 1) \<noteq> None" using v by simp
  show ?case
  proof (cases "start \<le> cur \<and> io' = Some True")
    case True
    then have "cur \<in> fst ` set tt" using Suc.prems(1) le by auto
    then obtain old where old: "map_of tt cur = Some old"
      by (metis domD dom_map_of_conv_image_fst)
    define tt1 where "tt1 = AList.update cur (old + v) tt"
    have add: "dict_iadd tt cur ce' = Inr tt1"
      by (simp add: dict_iadd_def old v tt1_def)
    have keys1: "map fst tt1 = map fst tt"
      unfolding tt1_def using \<open>cur \<in> fst ` set tt\<close> by (simp add: update_keys)
    have mo1: "map_of tt1 = (map_of tt)(cur \<mapsto> old + v)"
      unfolding tt1_def by (rule update_conv')
    have k1: "\<forall>d. start \<le> d \<and> cur + 1 \<le> d \<and> d \<le> end_date \<longrightarrow> d \<in> fst ` set tt1"
    proof -
      have "fst ` set tt1 = fst ` set tt" using keys1 by (metis list.set_map)
      then show ?thesis using Suc.prems(1) by auto
    qed
    from Suc.hyps(1) [OF n k1 est', of io']
    obtain tt' where r: "remaining_loop cs start end_date eh sh (cur + 1) ce' io' tt1 = Inr tt'"
      and kk: "map fst tt' = map fst tt1"
      and mm: "\<And>d. map_of tt' d =
              (if start \<le> d \<and> cur + 1 \<le> d \<and> d \<le> end_date \<and>
                  carry_from io' (open_history cs sh) (cur + 1) d = Some True
               then map_option
                      (\<lambda>x. x + (case carry_from ce' eh (cur + 1) d of Some v \<Rightarrow> v | None \<Rightarrow> 0))
                      (map_of tt1 d)
               else map_of tt1 d)"
      by blast
    have unfold: "remaining_loop cs start end_date eh sh cur ce io tt = Inr tt'"
      using le True add r
      by (subst remaining_loop.simps) (simp add: io'_def [symmetric] ce'_def [symmetric])
    have "map_of tt' d =
              (if start \<le> d \<and> cur \<le> d \<and> d \<le> end_date \<and>
                  carry_from io (open_history cs sh) cur d = Some True
               then map_option
                      (\<lambda>x. x + (case carry_from ce eh cur d of Some v \<Rightarrow> v | None \<Rightarrow> 0))
                      (map_of tt d)
               else map_of tt d)" for d
    proof (cases "d = cur")
      case deq: True
      show ?thesis using True le by (simp add: mm deq mo1 hereE hereO old)
    next
      case dne: False
      show ?thesis
      proof (cases "cur \<le> d")
        case c: True
        then have "cur + 1 \<le> d" using dne by simp
        then show ?thesis using c dne by (simp add: mm mo1 shiftE [OF c] shiftO [OF c])
      next
        case c: False
        then show ?thesis using dne by (simp add: mm mo1)
      qed
    qed
    then show ?thesis using unfold kk keys1 by simp
  next
    case False
    have k1: "\<forall>d. start \<le> d \<and> cur + 1 \<le> d \<and> d \<le> end_date \<longrightarrow> d \<in> fst ` set tt"
      using Suc.prems(1) by auto
    from Suc.hyps(1) [OF n k1 est', of io']
    obtain tt' where r: "remaining_loop cs start end_date eh sh (cur + 1) ce' io' tt = Inr tt'"
      and kk: "map fst tt' = map fst tt"
      and mm: "\<And>d. map_of tt' d =
              (if start \<le> d \<and> cur + 1 \<le> d \<and> d \<le> end_date \<and>
                  carry_from io' (open_history cs sh) (cur + 1) d = Some True
               then map_option
                      (\<lambda>x. x + (case carry_from ce' eh (cur + 1) d of Some v \<Rightarrow> v | None \<Rightarrow> 0))
                      (map_of tt d)
               else map_of tt d)"
      by blast
    have unfold: "remaining_loop cs start end_date eh sh cur ce io tt = Inr tt'"
      using le False r
      by (subst remaining_loop.simps) (auto simp add: io'_def [symmetric] ce'_def [symmetric])
    have "map_of tt' d =
              (if start \<le> d \<and> cur \<le> d \<and> d \<le> end_date \<and>
                  carry_from io (open_history cs sh) cur d = Some True
               then map_option
                      (\<lambda>x. x + (case carry_from ce eh cur d of Some v \<Rightarrow> v | None \<Rightarrow> 0))
                      (map_of tt d)
               else map_of tt d)" for d
    proof (cases "d = cur")
      case deq: True
      show ?thesis using False by (auto simp add: mm deq hereO)
    next
      case dne: False
      show ?thesis
      proof (cases "cur \<le> d")
        case c: True
        then have "cur + 1 \<le> d" using dne by simp
        then show ?thesis using c dne by (simp add: mm shiftE [OF c] shiftO [OF c])
      next
        case c: False
        then show ?thesis using dne by (simp add: mm)
      qed
    qed
    then show ?thesis using unfold kk by simp
  qed
qed

lemma spent_loop_remaining:
  "spent_loop start end_date eh cur ce tt =
   remaining_loop cs start end_date eh Map.empty cur ce (Some True) tt"
proof (induction n \<equiv> "nat (end_date + 1 - cur)" arbitrary: cur ce tt)
  case 0
  then have gt: "\<not> cur \<le> end_date" by simp
  then show ?case
    by (subst spent_loop.simps, subst remaining_loop.simps) simp
next
  case (Suc n)
  then have le: "cur \<le> end_date" by simp
  have n: "n = nat (end_date + 1 - (cur + 1))" using Suc.hyps(2) by simp
  show ?case
    using le Suc.hyps(1) [OF n]
    by (subst spent_loop.simps, subst remaining_loop.simps)
       (simp add: Let_def split: sum.splits)
qed

section \<open>The contribution of one ticket\<close>

lemma carry_from_const: "(\<And>x. h x = None) \<Longrightarrow> carry_from init h c d = init"
proof (induction n \<equiv> "nat (d + 1 - c)" arbitrary: d)
  case 0
  then show ?case by (subst carry_from.simps) simp
next
  case (Suc n)
  then have "n = nat ((d - 1) + 1 - c)" by simp
  from Suc.hyps(1) [OF this Suc.prems] Suc.prems show ?case
    by (subst carry_from.simps) simp
qed

text \<open>What seeding the creation date stores.\<close>

lemma seed_estimate:
  "estimate_history (seed_creation c le ls h) d =
     (if d = c \<and> estimate_history h c = None
      then Some (case earliest_estimate h of Some v \<Rightarrow> v | None \<Rightarrow> le)
      else estimate_history h d)"
  by (simp add: seed_creation_def Let_def split: option.splits)

lemma seed_status:
  "status_history (seed_creation c le ls h) d =
     (if d = c \<and> status_history h c = None
      then Some (if earliest_status h \<noteq> PyNone then earliest_status h else ls)
      else status_history h d)"
  by (simp add: seed_creation_def Let_def split: option.splits)

lemma ticket_history_seeded:
  "estimate_history (ticket_history e fld t) (t_time t) \<noteq> None"
  by (simp add: ticket_history_def seed_estimate)

lemma remaining_ticket_result:
  assumes keys: "\<forall>d. startdate opts \<le> d \<and> d \<le> enddate opts \<longrightarrow> d \<in> fst ` set tt"
  shows "\<exists>tt'. remaining_ticket e opts tt t = Inr tt' \<and> map fst tt' = map fst tt \<and>
           (\<forall>d. map_of tt' d =
              (if startdate opts \<le> d \<and> t_time t \<le> d \<and> d \<le> enddate opts \<and>
                  open_on e (remaining_field e) t d
               then map_option (\<lambda>x. x + estimate_on e (remaining_field e) t d) (map_of tt d)
               else map_of tt d))"
proof -
  have k: "\<forall>d. startdate opts \<le> d \<and> t_time t \<le> d \<and> d \<le> enddate opts \<longrightarrow> d \<in> fst ` set tt"
    using keys by simp
  have s: "None \<noteq> (None :: rat option) \<or>
           estimate_history (ticket_history e (remaining_field e) t) (t_time t) \<noteq> None"
    by (simp add: ticket_history_seeded)
  note r = remaining_loop_result [where start = "startdate opts" and cur = "t_time t"
        and end_date = "enddate opts" and tt = tt and ce = None
        and eh = "estimate_history (ticket_history e (remaining_field e) t)"
        and cs = "closed_states e"
        and sh = "status_history (ticket_history e (remaining_field e) t)"
        and io = None, OF k s]
  show ?thesis
    unfolding remaining_ticket_def Let_def open_on_def estimate_on_def
    by (rule r)
qed

lemma spent_ticket_result:
  assumes keys: "\<forall>d. startdate opts \<le> d \<and> d \<le> enddate opts \<longrightarrow> d \<in> fst ` set tt"
  shows "\<exists>tt'. spent_ticket e opts tt t = Inr tt' \<and> map fst tt' = map fst tt \<and>
           (\<forall>d. map_of tt' d =
              (if startdate opts \<le> d \<and> t_time t \<le> d \<and> d \<le> enddate opts
               then map_option (\<lambda>x. x + estimate_on e (spent_field e) t d) (map_of tt d)
               else map_of tt d))"
proof -
  have k: "\<forall>d. startdate opts \<le> d \<and> t_time t \<le> d \<and> d \<le> enddate opts \<longrightarrow> d \<in> fst ` set tt"
    using keys by simp
  have s: "None \<noteq> (None :: rat option) \<or>
           estimate_history (ticket_history e (spent_field e) t) (t_time t) \<noteq> None"
    by (simp add: ticket_history_seeded)
  have c: "carry_from (Some True) (open_history [] Map.empty) (t_time t) d = Some True" for d
    by (rule carry_from_const) (simp add: open_history_def)
  have t: "(Some True = Some True) = True" by simp
  note r = remaining_loop_result [where start = "startdate opts" and cur = "t_time t"
        and end_date = "enddate opts" and tt = tt and ce = None
        and eh = "estimate_history (ticket_history e (spent_field e) t)"
        and cs = "[]" and sh = Map.empty and io = "Some True", OF k s,
        unfolded c t simp_thms, folded spent_loop_remaining [where cs = "[]"]]
  show ?thesis
    unfolding spent_ticket_def Let_def estimate_on_def
    by (rule r)
qed

text \<open>A ticket created after the end date leaves the timetable as it is.\<close>

lemma remaining_ticket_late:
  "enddate opts < t_time t \<Longrightarrow> remaining_ticket e opts tt t = Inr tt"
  by (simp add: remaining_ticket_def Let_def remaining_loop.simps)

lemma spent_ticket_late:
  "enddate opts < t_time t \<Longrightarrow> spent_ticket e opts tt t = Inr tt"
  by (simp add: spent_ticket_def Let_def spent_loop.simps)

text \<open>The loop over the tickets.\<close>

lemma for_tickets_append:
  "for_tickets body (xs @ ys) tt =
     (case for_tickets body xs tt of Inl err \<Rightarrow> Inl err | Inr tt' \<Rightarrow> for_tickets body ys tt')"
  by (induction xs arbitrary: tt) (auto split: sum.splits)

lemma for_tickets_snoc:
  "for_tickets body (xs @ [x]) tt =
     (case for_tickets body xs tt of Inl err \<Rightarrow> Inl err | Inr tt' \<Rightarrow> body tt' x)"
  by (simp add: for_tickets_append split: sum.splits)

lemma for_tickets_keys:
  assumes step: "\<And>tt t. map fst tt = ks \<Longrightarrow> \<exists>tt'. body tt t = Inr tt' \<and> map fst tt' = ks"
  shows "map fst tt = ks \<Longrightarrow> \<exists>tt'. for_tickets body ts tt = Inr tt' \<and> map fst tt' = ks"
proof (induction ts arbitrary: tt)
  case Nil
  then show ?case by simp
next
  case (Cons t ts)
  from step [OF Cons.prems] obtain tt1 where b: "body tt t = Inr tt1" and k: "map fst tt1 = ks"
    by blast
  from Cons.IH [OF k] show ?case by (simp add: b)
qed

lemma for_tickets_filter:
  assumes skip: "\<And>tt t. \<not> keep t \<Longrightarrow> body tt t = Inr tt"
  shows "for_tickets body (filter keep ts) tt = for_tickets body ts tt"
  by (induction ts arbitrary: tt) (auto simp: skip split: sum.splits)

lemma window_keys:
  "map fst tt = [s..e] \<Longrightarrow> \<forall>d. s \<le> d \<and> d \<le> e \<longrightarrow> d \<in> fst ` set tt"
  by (metis atLeastAtMost_iff list.set_map set_upto)

lemma calculate_timetable_keys:
  "\<exists>tt. calculate_timetable e opts ts = Inr tt \<and> map fst tt = [startdate opts..enddate opts]"
  unfolding calculate_timetable_def
proof (rule for_tickets_keys)
  show "map fst (init_timetable (startdate opts) (enddate opts) []) = [startdate opts..enddate opts]"
    by (simp add: init_timetable_empty comp_def)
next
  fix tt :: timetable and t
  assume "map fst tt = [startdate opts..enddate opts]"
  then show "\<exists>tt'. remaining_ticket e opts tt t = Inr tt' \<and> map fst tt' = [startdate opts..enddate opts]"
    using remaining_ticket_result [OF window_keys, of tt opts e t] by auto
qed

lemma calculate_timetable_spent_keys:
  "\<exists>tt. calculate_timetable_spent e opts ts = Inr tt \<and> map fst tt = [startdate opts..enddate opts]"
  unfolding calculate_timetable_spent_def
proof (rule for_tickets_keys)
  show "map fst (init_timetable (startdate opts) (enddate opts) []) = [startdate opts..enddate opts]"
    by (simp add: init_timetable_empty comp_def)
next
  fix tt :: timetable and t
  assume "map fst tt = [startdate opts..enddate opts]"
  then show "\<exists>tt'. spent_ticket e opts tt t = Inr tt' \<and> map fst tt' = [startdate opts..enddate opts]"
    using spent_ticket_result [OF window_keys, of tt opts e t] by auto
qed

lemma calculate_timetable_snoc:
  "calculate_timetable e opts (ts @ [t]) =
     (case calculate_timetable e opts ts of Inl err \<Rightarrow> Inl err | Inr tt \<Rightarrow> remaining_ticket e opts tt t)"
  by (simp add: calculate_timetable_def for_tickets_snoc)

lemma calculate_timetable_spent_snoc:
  "calculate_timetable_spent e opts (ts @ [t]) =
     (case calculate_timetable_spent e opts ts of Inl err \<Rightarrow> Inl err | Inr tt \<Rightarrow> spent_ticket e opts tt t)"
  by (simp add: calculate_timetable_spent_def for_tickets_snoc)

section \<open>The per-day dictionaries built from the change rows\<close>

lemma history_step_status:
  "status_history (history_step D fld h r) =
     (if fst r \<noteq> fld \<and> fst r = ''status''
      then (status_history h)(from_utimestamp_date (row_time r) \<mapsto> row_new r)
      else status_history h)"
  by (cases r) (simp add: history_step_def Let_def row_time_def row_new_def split: option.splits)

lemma history_step_estimate:
  "estimate_history (history_step D fld h r) =
     (if fst r = fld
      then (case cast_estimate D (row_new r) of
              Some v \<Rightarrow> (estimate_history h)(from_utimestamp_date (row_time r) \<mapsto> v)
            | None \<Rightarrow> estimate_history h)
      else estimate_history h)"
  by (cases r) (simp add: history_step_def Let_def row_time_def row_new_def split: option.splits)

lemma history_step_earliest:
  "fst r \<noteq> fld \<Longrightarrow> earliest_estimate (history_step D fld h r) = earliest_estimate h"
  by (cases r) (simp add: history_step_def Let_def)

lemma build_history_snoc:
  "build_history D fld (rows @ [r]) = history_step D fld (build_history D fld rows) r"
  by (simp add: build_history_def)

lemma build_history_Nil: "build_history D fld [] = empty_history"
  by (simp add: build_history_def)

lemma build_status:
  assumes "fld \<noteq> ''status''"
  shows "status_history (build_history D fld rows) d =
     (if changes_on ''status'' d rows = [] then None
      else Some (row_new (last (changes_on ''status'' d rows))))"
proof (induction rows rule: rev_induct)
  case Nil
  then show ?case by (simp add: build_history_Nil empty_history_def changes_on_def)
next
  case (snoc r rows)
  then show ?case
    using assms by (auto simp add: build_history_snoc history_step_status changes_on_def)
qed

lemma build_estimate:
  "estimate_history (build_history D fld rows) d =
     (if numeric_changes_on D fld d rows = [] then None
      else cast_estimate D (row_new (last (numeric_changes_on D fld d rows))))"
proof (induction rows rule: rev_induct)
  case Nil
  then show ?case
    by (simp add: build_history_Nil empty_history_def numeric_changes_on_def changes_on_def)
next
  case (snoc r rows)
  then show ?case
    by (auto simp add: build_history_snoc history_step_estimate numeric_changes_on_def
          changes_on_def split: option.splits)
qed

lemma build_estimate_skips:
  "estimate_history (build_history D fld rows) =
   estimate_history (build_history D fld
     (filter (\<lambda>r. \<not> (fst r = fld \<and> cast_estimate D (row_new r) = None)) rows))"
proof (induction rows rule: rev_induct)
  case Nil
  then show ?case by simp
next
  case (snoc r rows)
  then show ?case
    by (auto simp add: build_history_snoc history_step_estimate split: option.splits)
qed

lemma build_unchanged:
  "\<forall>r \<in> set rows. fst r \<noteq> fld \<Longrightarrow>
   estimate_history (build_history D fld rows) = Map.empty \<and>
   earliest_estimate (build_history D fld rows) = None"
proof (induction rows rule: rev_induct)
  case Nil
  then show ?case by (simp add: build_history_Nil empty_history_def)
next
  case (snoc r rows)
  then show ?case
    by (simp add: build_history_snoc history_step_estimate history_step_earliest)
qed

lemma foldl_filter_skip:
  assumes "\<And>s x. \<not> keep x \<Longrightarrow> f s x = s"
  shows "foldl f s (filter keep xs) = foldl f s xs"
  by (induction xs arbitrary: s) (simp_all add: assms)

section \<open>Scaling\<close>

lemma mapE_all:
  "(\<And>x. x \<in> set xs \<Longrightarrow> f x = Inr (g x)) \<Longrightarrow> mapE f xs = Inr (map g xs)"
  by (induction xs) simp_all

lemma map_insort_key: "map f (insort_key f x ys) = insort (f x) (map f ys)"
  by (induction ys) simp_all

lemma map_sort_key: "map f (sort_key f xs) = sort (map f xs)"
  by (induction xs) (simp_all add: map_insort_key)

lemma maxhours_of_pos: "0 < maxhours_of ex tt"
proof -
  have "0 < (if m \<le> 0 then 100 else m)" for m :: rat by simp
  then show ?thesis unfolding maxhours_of_def Let_def .
qed

lemma mapE_map: "mapE f (map h xs) = mapE (\<lambda>x. f (h x)) xs"
  by (induction xs) (simp_all split: sum.splits)

lemma scale_y_ok:
  "map_of tt d = Some v \<Longrightarrow> scale_y tt (maxhours_of ex tt) d =
     Inr (str_decimal (round_decimal (v * 100 / maxhours_of ex tt)))"
  using maxhours_of_pos [of ex tt] by (simp add: scale_y_def dict_get_def decimal_div_def)

lemma scale_x_ok:
  "len \<noteq> 1 \<Longrightarrow> scale_x len x =
     Inr (str_decimal (round_decimal (of_nat x * 100 / of_int (int len - 1))))"
  by (simp add: scale_x_def decimal_div_def)

lemma scale_x_single: "scale_x 1 0 = Inl InvalidOperation"
  by (simp add: scale_x_def decimal_div_def)

lemma mask_sorted:
  "sorted (map f xs) \<Longrightarrow>
   take (length xs - length (filter (\<lambda>x. t < f x) xs)) (map g xs) @
     replicate (length (filter (\<lambda>x. t < f x) xs)) s =
   map (\<lambda>x. if t < f x then s else g x) xs"
proof (induction xs)
  case Nil
  then show ?case by simp
next
  case (Cons x xs)
  show ?case
  proof (cases "t < f x")
    case True
    then have all: "\<forall>y \<in> set xs. t < f y" using Cons.prems by auto
    then have "filter (\<lambda>x. t < f x) xs = xs" by simp
    moreover have "map (\<lambda>x. if t < f x then s else g x) xs = map (\<lambda>x. s) xs"
      using all by simp
    ultimately show ?thesis using True by (simp add: map_replicate_const)
  next
    case False
    have le: "length (filter (\<lambda>x. t < f x) xs) \<le> length xs" by simp
    from Cons.prems have "sorted (map f xs)" by simp
    from Cons.IH [OF this] False le show ?thesis
      by (simp add: Suc_diff_le)
  qed
qed

lemma mask_sorted_if:
  assumes "sorted (map f xs)"
  shows "(if length (filter (\<lambda>x. t < f x) xs) \<noteq> 0
          then take (length xs - length (filter (\<lambda>x. t < f x) xs)) (map g xs) @
               replicate (length (filter (\<lambda>x. t < f x) xs)) s
          else map g xs) =
         map (\<lambda>x. if t < f x then s else g x) xs"
proof (cases "filter (\<lambda>x. t < f x) xs = []")
  case True
  then have "\<forall>x \<in> set xs. \<not> t < f x" by (simp add: filter_empty_conv)
  then have "map g xs = map (\<lambda>x. if t < f x then s else g x) xs" by simp
  with True show ?thesis by simp
next
  case False
  then show ?thesis using mask_sorted [OF assms, of t g s] by simp
qed

lemma str_decimal_not_sentinel: "str_decimal q \<noteq> ''-1''"
proof -
  have "CHR ''.'' \<in> set (str_decimal q)"
    by (cases q) (simp add: str_decimal_def)
  moreover have "CHR ''.'' \<notin> set ''-1''" by simp
  ultimately show ?thesis by metis
qed

lemma scale_data_result:
  assumes d: "distinct (map fst tt)"
      and ex: "int_str e (expected opts) = Some ex"
      and len: "length tt \<noteq> 1"
  shows "scale_data e opts tt =
     Inr (map (\<lambda>x. str_decimal (round_decimal (of_nat x * 100 / of_int (int (length tt) - 1))))
            [0..<length tt],
          map (\<lambda>p. if today opts < fst p then ''-1''
                    else str_decimal (round_decimal (snd p * 100 / maxhours_of ex tt)))
            (sort_key fst tt),
          maxhours_of ex tt)"
proof -
  let ?ps = "sort_key fst tt"
  let ?pct = "\<lambda>p :: date \<times> rat. str_decimal (round_decimal (snd p * 100 / maxhours_of ex tt))"
  have dates: "sort (map fst tt) = map fst ?ps" by (simp add: map_sort_key)
  have y0: "scale_y tt (maxhours_of ex tt) (fst p) = Inr (?pct p)" if "p \<in> set ?ps" for p
  proof -
    from that have "p \<in> set tt" by simp
    then have "map_of tt (fst p) = Some (snd p)" using d by simp
    then show ?thesis by (rule scale_y_ok)
  qed
  have y: "mapE (scale_y tt (maxhours_of ex tt)) (map fst ?ps) = Inr (map ?pct ?ps)"
    unfolding mapE_map by (rule mapE_all) (rule y0)
  have x: "mapE (scale_x (length tt)) [0..<length tt] =
      Inr (map (\<lambda>x. str_decimal (round_decimal (of_nat x * 100 / of_int (int (length tt) - 1))))
            [0..<length tt])"
    by (rule mapE_all) (rule scale_x_ok [OF len])
  have srt: "sorted (map fst ?ps)" by (simp add: map_sort_key)
  have cnt: "length (filter (\<lambda>d. today opts < d) (map fst ?ps)) =
             length (filter (\<lambda>p. today opts < fst p) ?ps)"
    by (simp add: filter_map comp_def)
  note mask = mask_sorted_if [OF srt, of "today opts" ?pct "''-1''"]
  have len_y: "length (map ?pct ?ps) = length ?ps" by simp
  have len_d: "length (map fst ?ps) = length tt" by simp
  show ?thesis
    unfolding scale_data_def Let_def dates
    by (simp only: ex y x cnt option.case sum.case len_y len_d mask)
qed

lemma digits_Decimal_samples:
  "digits_Decimal ''10'' = Some 10" "digits_Decimal ''4'' = Some 4"
  "digits_Decimal ''5'' = Some 5" "digits_Decimal ''7'' = Some 7"
  "digits_Decimal ''8'' = Some 8" "digits_Decimal ''2'' = Some 2"
  "digits_Decimal ''3'' = Some 3"
  "digits_Decimal ''abc'' = None"
  by (simp_all add: digits_Decimal_def)

lemma digits_int_zero: "digits_int ''0'' = Some 0"
  by (simp add: digits_int_def)

lemmas sample_defs = sample_env_def sample_opts_def sample_ticket_def sample_changes_def
  digits_Decimal_samples digits_int_zero

lemmas eval_defs = calculate_timetable_def calculate_timetable_spent_def
  remaining_ticket_def spent_ticket_def ticket_history_def build_history_def
  history_step_def empty_history_def seed_creation_def latest_estimate_def cast_estimate_def
  from_utimestamp_date_def Let_def remaining_loop.simps spent_loop.simps dict_iadd_def
  init_timetable.simps

section \<open>Days with and without changes\<close>

lemma carry_from_last:
  assumes "c \<le> D" "h D = Some v"
  shows "D \<le> d \<Longrightarrow> (\<And>d'. D < d' \<Longrightarrow> d' \<le> d \<Longrightarrow> h d' = None) \<Longrightarrow>
         carry_from init h c d = Some v"
proof (induction n \<equiv> "nat (d - D)" arbitrary: d)
  case 0
  then have "d = D" by simp
  then show ?case using assms by (subst carry_from.simps) simp
next
  case (Suc n)
  then have gt: "D < d" and n: "n = nat ((d - 1) - D)" and le: "D \<le> d - 1" by simp_all
  have none: "h d = None" using Suc.prems(2) [of d] gt by simp
  have "carry_from init h c (d - 1) = Some v"
    using Suc.hyps(1) [OF n le] Suc.prems(2) by simp
  then show ?case
    using none gt assms(1) by (subst carry_from.simps) simp
qed

lemma carry_from_at:
  "c \<le> d \<Longrightarrow> h d = Some v \<Longrightarrow> carry_from init h c d = Some v"
  by (subst carry_from.simps) simp

lemma history_step_no_status:
  "fst r \<noteq> ''status'' \<Longrightarrow>
   status_history (history_step D fld h r) = status_history h \<and>
   earliest_status (history_step D fld h r) = earliest_status h"
  by (cases r) (simp add: history_step_def Let_def split: option.splits)

lemma build_no_status:
  "\<forall>r \<in> set rows. fst r \<noteq> ''status'' \<Longrightarrow>
   status_history (build_history D fld rows) = Map.empty \<and>
   earliest_status (build_history D fld rows) = PyNone"
proof (induction rows rule: rev_induct)
  case Nil
  then show ?case by (simp add: build_history_Nil empty_history_def)
next
  case (snoc r rows)
  then show ?case by (simp add: build_history_snoc history_step_no_status)
qed

lemma sorted_le_last:
  "sorted (map f xs) \<Longrightarrow> x \<in> set xs \<Longrightarrow> f x \<le> f (last xs)"
proof (induction xs rule: rev_induct)
  case Nil
  then show ?case by simp
next
  case (snoc y ys)
  then show ?case by (auto simp add: sorted_append)
qed

lemma sorted_changes_on:
  "sorted (map row_time rows) \<Longrightarrow> sorted (map row_time (changes_on fld d rows))"
  unfolding changes_on_def by (rule sorted_filter)

lemma sorted_numeric_changes_on:
  "sorted (map row_time rows) \<Longrightarrow> sorted (map row_time (numeric_changes_on D fld d rows))"
  unfolding numeric_changes_on_def by (rule sorted_filter) (rule sorted_changes_on)

text \<open>The dictionaries of a ticket on a day that has a change.\<close>

lemma ticket_status_changed:
  assumes "fld \<noteq> ''status''" "changes_on ''status'' d (db_query e (t_id t) fld) \<noteq> []"
  shows "status_history (ticket_history e fld t) d =
         Some (row_new (last (changes_on ''status'' d (db_query e (t_id t) fld))))"
  using assms by (auto simp add: ticket_history_def seed_status build_status)

lemma ticket_status_unchanged:
  assumes "fld \<noteq> ''status''" "changes_on ''status'' d (db_query e (t_id t) fld) = []"
    "d \<noteq> t_time t"
  shows "status_history (ticket_history e fld t) d = None"
  using assms by (simp add: ticket_history_def seed_status build_status)

lemma ticket_estimate_changed:
  assumes "numeric_changes_on (Decimal_str e) fld d (db_query e (t_id t) fld) \<noteq> []"
  shows "estimate_history (ticket_history e fld t) d =
         cast_estimate (Decimal_str e)
           (row_new (last (numeric_changes_on (Decimal_str e) fld d (db_query e (t_id t) fld))))"
proof -
  let ?n = "numeric_changes_on (Decimal_str e) fld d (db_query e (t_id t) fld)"
  have "last ?n \<in> set ?n" using assms by simp
  then have "cast_estimate (Decimal_str e) (row_new (last ?n)) \<noteq> None"
    by (simp add: numeric_changes_on_def)
  then show ?thesis
    using assms by (auto simp add: ticket_history_def seed_estimate build_estimate)
qed

text \<open>A ticket whose tracked field, or whose status, has no row.\<close>

lemma estimate_on_unchanged:
  assumes "\<forall>r \<in> set (db_query e (t_id t) fld). fst r \<noteq> fld" "t_time t \<le> d"
  shows "estimate_on e fld t d = latest_estimate e fld t"
proof -
  from build_unchanged [OF assms(1), of "Decimal_str e"]
  have h: "estimate_history (ticket_history e fld t) =
           [t_time t \<mapsto> latest_estimate e fld t]"
    by (simp add: ticket_history_def seed_estimate fun_eq_iff)
  have "carry_from None (estimate_history (ticket_history e fld t)) (t_time t) d =
        Some (latest_estimate e fld t)"
    by (rule carry_from_last [where D = "t_time t"]) (simp_all add: h assms(2))
  then show ?thesis by (simp add: estimate_on_def)
qed

lemma open_on_unchanged:
  assumes "\<forall>r \<in> set (db_query e (t_id t) fld). fst r \<noteq> ''status''" "t_time t \<le> d"
  shows "open_on e fld t d = (\<not> py_in (t_status t) (closed_states e))"
proof -
  from build_no_status [OF assms(1), of "Decimal_str e" fld]
  have h: "status_history (ticket_history e fld t) = [t_time t \<mapsto> t_status t]"
    by (simp add: ticket_history_def seed_status fun_eq_iff)
  have "carry_from None (open_history (closed_states e) (status_history (ticket_history e fld t)))
          (t_time t) d = Some (\<not> py_in (t_status t) (closed_states e))"
    by (rule carry_from_last [where D = "t_time t"]) (simp_all add: h open_history_def assms(2))
  then show ?thesis by (auto simp add: open_on_def)
qed

text \<open>From the day a ticket is closed to its next status change it is not open.\<close>

lemma closed_from:
  assumes fld: "fld \<noteq> ''status''"
      and ne: "changes_on ''status'' D (db_query e (t_id t) fld) \<noteq> []"
      and cl: "py_in (row_new (last (changes_on ''status'' D (db_query e (t_id t) fld))))
                 (closed_states e)"
      and cr: "t_time t \<le> D"
      and dd: "D \<le> d"
      and quiet: "\<forall>d'. D < d' \<and> d' \<le> d \<longrightarrow> changes_on ''status'' d' (db_query e (t_id t) fld) = []"
  shows "\<not> open_on e fld t d"
proof -
  let ?h = "open_history (closed_states e) (status_history (ticket_history e fld t))"
  have at: "?h D = Some False"
    using cl by (simp add: open_history_def ticket_status_changed [OF fld ne])
  have later: "?h d' = None" if "D < d'" "d' \<le> d" for d'
  proof -
    have "d' \<noteq> t_time t" using that cr by simp
    moreover have "changes_on ''status'' d' (db_query e (t_id t) fld) = []"
      using quiet that by simp
    ultimately show ?thesis
      by (simp add: open_history_def ticket_status_unchanged [OF fld])
  qed
  have "carry_from None ?h (t_time t) d = Some False"
    using cr at dd later by (rule carry_from_last [where h = ?h and D = D])
  then show ?thesis by (simp add: open_on_def)
qed

lemma window_value:
  "map fst tt = [s..e] \<Longrightarrow> s \<le> d \<Longrightarrow> d \<le> e \<Longrightarrow> map_of tt d \<noteq> None"
  using window_keys [of tt s e] by (simp add: map_of_eq_None_iff)


text \<open>The earliest estimate is the cast old value of the first row of the tracked field
  that has one.\<close>

lemma history_step_earliest_kept:
  "earliest_estimate h = Some v \<Longrightarrow> earliest_estimate (history_step D fld h r) = Some v"
  by (cases r) (simp add: history_step_def Let_def split: option.splits)

lemma foldl_earliest_kept:
  "earliest_estimate h = Some v \<Longrightarrow>
   earliest_estimate (foldl (history_step D fld) h rows) = Some v"
  by (induction rows arbitrary: h) (simp_all add: history_step_earliest_kept)

lemma history_step_earliest_first:
  "earliest_estimate h = None \<Longrightarrow> fst r = fld \<Longrightarrow>
   earliest_estimate (history_step D fld h r) = cast_estimate D (row_old r)"
  by (cases r) (simp add: history_step_def Let_def row_old_def split: option.splits)

lemma build_earliest_first:
  assumes "\<forall>x \<in> set pre. fst x \<noteq> fld" "fst r = fld" "cast_estimate D (row_old r) = Some v"
  shows "earliest_estimate (build_history D fld (pre @ r # post)) = Some v"
proof -
  have none: "earliest_estimate (build_history D fld pre) = None"
    using build_unchanged [OF assms(1)] by simp
  have "earliest_estimate (history_step D fld (build_history D fld pre) r) = Some v"
    using history_step_earliest_first [OF none assms(2)] assms(3) by simp
  then have "earliest_estimate
      (foldl (history_step D fld) (history_step D fld (build_history D fld pre) r) post) = Some v"
    by (rule foldl_earliest_kept)
  then show ?thesis by (simp add: build_history_def)
qed

section \<open>Printing and the peak of equal values\<close>

lemma floor_rat_numeral: "\<lfloor>numeral a / numeral b :: rat\<rfloor> = numeral a div numeral b"
  by (metis floor_divide_of_int_eq of_int_numeral)

lemmas str_defs = str_decimal_def round_decimal_def str_nat.simps digit_char_def
  floor_rat_numeral

lemma str_decimal_100: "str_decimal (round_decimal 100) = ''100.00''"
  by (simp add: str_defs)

lemma str_examples:
  "str_decimal (round_decimal 0) = ''0.00''"
  "str_decimal (round_decimal 25) = ''25.00''"
  "str_decimal (round_decimal 50) = ''50.00''"
  "str_decimal (round_decimal 75) = ''75.00''"
  "str_decimal (round_decimal (100/3)) = ''33.33''"
  "str_decimal (round_decimal (- 1/8)) = ''-0.13''"
  by (simp_all add: str_defs)

lemma maxhours_of_equal:
  assumes "tt \<noteq> []" "\<forall>p \<in> set tt. snd p = v" "0 < v" "of_int ex \<le> v"
  shows "maxhours_of ex tt = v"
proof -
  have "snd ` set tt = {v}" using assms(1,2) by (cases tt) auto
  then have "Max (set (map snd tt @ [of_int ex])) = max (of_int ex) v" by simp
  then show ?thesis using assms(3,4) by (simp add: maxhours_of_def Let_def)
qed

lemma count_after_sorted:
  "length (filter P (sort_key f xs)) = length (filter P xs)"
  by (simp add: filter_sort)


section \<open>The claims\<close>

text \<open>
  C1. A ticket created on 2008-01-01 (day 13879), open throughout, whose change log is
  the single row (tracked field, a time on 2008-01-03, old "10", new "4"), gives over
  the window 2008-01-01..2008-01-05 the remaining timetable 10, 10, 4, 4, 4, whatever
  its current value is: the creation day holds the old value of the row, not the
  current value, and each value is carried forward to the next change. With no row at
  all and current value "10" the timetable is 10 on every day. In general, when no
  numeric change falls on the creation day, the creation day holds the cast old value
  of the first row of the tracked field, if that is a number, and the current estimate
  when the tracked field has no row.
\<close>

theorem C1_seed_forward_fill:
  "(Decimal_str e ''10'' = Some 10 \<and> Decimal_str e ''4'' = Some 4 \<and>
    t_time t = 13879 \<and> \<not> py_in (t_status t) (closed_states e) \<and>
    startdate opts = 13879 \<and> enddate opts = 13883 \<and> from_utimestamp_date ts = 13881 \<and>
    db_query e (t_id t) (remaining_field e) =
      [(remaining_field e, ts, PyStr ''10'', PyStr ''4'')] \<longrightarrow>
    calculate_timetable e opts [t] =
      Inr [(13879, 10), (13880, 10), (13881, 4), (13882, 4), (13883, 4)]) \<and>
   (Decimal_str e ''10'' = Some 10 \<and>
    t_time t = 13879 \<and> \<not> py_in (t_status t) (closed_states e) \<and>
    startdate opts = 13879 \<and> enddate opts = 13883 \<and>
    t_fields t (remaining_field e) = PyStr ''10'' \<and>
    db_query e (t_id t) (remaining_field e) = [] \<longrightarrow>
    calculate_timetable e opts [t] =
      Inr [(13879, 10), (13880, 10), (13881, 10), (13882, 10), (13883, 10)]) \<and>
   (db_query e (t_id t) fld = pre @ r # post \<and> (\<forall>x \<in> set pre. fst x \<noteq> fld) \<and> fst r = fld \<and>
    cast_estimate (Decimal_str e) (row_old r) = Some v \<and>
    numeric_changes_on (Decimal_str e) fld (t_time t) (db_query e (t_id t) fld) = [] \<longrightarrow>
    estimate_history (ticket_history e fld t) (t_time t) = Some v \<and>
    estimate_on e fld t (t_time t) = v) \<and>
   ((\<forall>x \<in> set (db_query e (t_id t) fld). fst x \<noteq> fld) \<longrightarrow>
    estimate_history (ticket_history e fld t) (t_time t) = Some (latest_estimate e fld t) \<and>
    estimate_on e fld t (t_time t) = latest_estimate e fld t)"
proof (intro conjI impI)
  assume a: "Decimal_str e ''10'' = Some 10 \<and> Decimal_str e ''4'' = Some 4 \<and>
    t_time t = 13879 \<and> \<not> py_in (t_status t) (closed_states e) \<and>
    startdate opts = 13879 \<and> enddate opts = 13883 \<and> from_utimestamp_date ts = 13881 \<and>
    db_query e (t_id t) (remaining_field e) =
      [(remaining_field e, ts, PyStr ''10'', PyStr ''4'')]"
  then show "calculate_timetable e opts [t] =
      Inr [(13879, 10), (13880, 10), (13881, 4), (13882, 4), (13883, 4)]"
    by (simp add: calculate_timetable_def remaining_ticket_def ticket_history_def
          build_history_def history_step_def empty_history_def seed_creation_def
          cast_estimate_def Let_def remaining_loop.simps dict_iadd_def
          init_timetable.simps)
next
  assume a: "Decimal_str e ''10'' = Some 10 \<and>
    t_time t = 13879 \<and> \<not> py_in (t_status t) (closed_states e) \<and>
    startdate opts = 13879 \<and> enddate opts = 13883 \<and>
    t_fields t (remaining_field e) = PyStr ''10'' \<and>
    db_query e (t_id t) (remaining_field e) = []"
  then show "calculate_timetable e opts [t] =
      Inr [(13879, 10), (13880, 10), (13881, 10), (13882, 10), (13883, 10)]"
    by (simp add: calculate_timetable_def remaining_ticket_def ticket_history_def
          build_history_def history_step_def empty_history_def seed_creation_def
          latest_estimate_def cast_estimate_def Let_def remaining_loop.simps dict_iadd_def
          init_timetable.simps)
next
  assume a: "db_query e (t_id t) fld = pre @ r # post \<and> (\<forall>x \<in> set pre. fst x \<noteq> fld) \<and>
    fst r = fld \<and> cast_estimate (Decimal_str e) (row_old r) = Some v \<and>
    numeric_changes_on (Decimal_str e) fld (t_time t) (db_query e (t_id t) fld) = []"
  then have rows: "db_query e (t_id t) fld = pre @ r # post"
    and pre: "\<forall>x \<in> set pre. fst x \<noteq> fld" and r: "fst r = fld"
    and old: "cast_estimate (Decimal_str e) (row_old r) = Some v"
    and quiet: "numeric_changes_on (Decimal_str e) fld (t_time t) (db_query e (t_id t) fld) = []"
    by blast+
  have early: "earliest_estimate (build_history (Decimal_str e) fld (db_query e (t_id t) fld)) =
      Some v"
    unfolding rows by (rule build_earliest_first [OF pre r old])
  have none: "estimate_history (build_history (Decimal_str e) fld (db_query e (t_id t) fld))
      (t_time t) = None"
    unfolding build_estimate quiet by simp
  show s: "estimate_history (ticket_history e fld t) (t_time t) = Some v"
    by (simp add: ticket_history_def seed_estimate none early)
  show "estimate_on e fld t (t_time t) = v"
    by (simp add: estimate_on_def carry_from_here s)
next
  assume a: "\<forall>x \<in> set (db_query e (t_id t) fld). fst x \<noteq> fld"
  from build_unchanged [OF a, of "Decimal_str e"]
  show s: "estimate_history (ticket_history e fld t) (t_time t) = Some (latest_estimate e fld t)"
    by (simp add: ticket_history_def seed_estimate)
  show "estimate_on e fld t (t_time t) = latest_estimate e fld t"
    by (simp add: estimate_on_def carry_from_here s)
qed

theorem C1_seed_forward_fill_witness:
  "calculate_timetable sample_env sample_opts [sample_ticket 1 ''new'' ''4''] =
     Inr [(13879, 10), (13880, 10), (13881, 4), (13882, 4), (13883, 4)] \<and>
   calculate_timetable sample_env sample_opts [sample_ticket 6 ''new'' ''10''] =
     Inr [(13879, 10), (13880, 10), (13881, 10), (13882, 10), (13883, 10)] \<and>
   latest_estimate sample_env ''estimatedhours'' (sample_ticket 1 ''new'' ''4'') = 4 \<and>
   estimate_history (ticket_history sample_env ''estimatedhours'' (sample_ticket 1 ''new'' ''4''))
     13879 = Some 10 \<and>
   estimate_history (ticket_history sample_env ''estimatedhours'' (sample_ticket 6 ''new'' ''10''))
     13879 = Some 10"
proof -
  let ?t1 = "sample_ticket 1 ''new'' ''4''"
  let ?t6 = "sample_ticket 6 ''new'' ''10''"
  let ?r = "(''estimatedhours'', 1199350000000000, PyStr ''10'', PyStr ''4'') :: row"
  have D: "Decimal_str sample_env = digits_Decimal" by (simp add: sample_defs)
  have h1: "Decimal_str sample_env ''10'' = Some 10 \<and> Decimal_str sample_env ''4'' = Some 4 \<and>
    t_time ?t1 = 13879 \<and> \<not> py_in (t_status ?t1) (closed_states sample_env) \<and>
    startdate sample_opts = 13879 \<and> enddate sample_opts = 13883 \<and>
    from_utimestamp_date 1199350000000000 = 13881 \<and>
    db_query sample_env (t_id ?t1) (remaining_field sample_env) =
      [(remaining_field sample_env, 1199350000000000, PyStr ''10'', PyStr ''4'')]"
    by (simp add: sample_defs from_utimestamp_date_def)
  have h2: "Decimal_str sample_env ''10'' = Some 10 \<and>
    t_time ?t6 = 13879 \<and> \<not> py_in (t_status ?t6) (closed_states sample_env) \<and>
    startdate sample_opts = 13879 \<and> enddate sample_opts = 13883 \<and>
    t_fields ?t6 (remaining_field sample_env) = PyStr ''10'' \<and>
    db_query sample_env (t_id ?t6) (remaining_field sample_env) = []"
    by (simp add: sample_defs)
  have h3: "db_query sample_env (t_id ?t1) ''estimatedhours'' = [] @ ?r # [] \<and>
    (\<forall>x \<in> set ([] :: row list). fst x \<noteq> ''estimatedhours'') \<and> fst ?r = ''estimatedhours'' \<and>
    cast_estimate (Decimal_str sample_env) (row_old ?r) = Some 10 \<and>
    numeric_changes_on (Decimal_str sample_env) ''estimatedhours'' (t_time ?t1)
      (db_query sample_env (t_id ?t1) ''estimatedhours'') = []"
    by (simp add: sample_defs row_old_def cast_estimate_def numeric_changes_on_def
          changes_on_def row_time_def from_utimestamp_date_def)
  have h4: "\<forall>x \<in> set (db_query sample_env (t_id ?t6) ''estimatedhours''). fst x \<noteq> ''estimatedhours''"
    by (simp add: sample_defs)
  have l1: "latest_estimate sample_env ''estimatedhours'' ?t1 = 4"
    by (simp add: latest_estimate_def cast_estimate_def sample_defs)
  have l6: "latest_estimate sample_env ''estimatedhours'' ?t6 = 10"
    by (simp add: latest_estimate_def cast_estimate_def sample_defs)
  have c13: "t_time ?t1 = 13879" "t_time ?t6 = 13879" by (simp_all add: sample_defs)
  note c1 = C1_seed_forward_fill [of sample_env ?t1 sample_opts 1199350000000000 "''estimatedhours''" "[]" ?r "[]" 10]
  note c6 = C1_seed_forward_fill [of sample_env ?t6 sample_opts 0 "''estimatedhours''" "[]" ?r "[]" 10]
  from c1 h1 have e1: "calculate_timetable sample_env sample_opts [?t1] =
     Inr [(13879, 10), (13880, 10), (13881, 4), (13882, 4), (13883, 4)]"
    by blast
  from c6 h2 have e2: "calculate_timetable sample_env sample_opts [?t6] =
     Inr [(13879, 10), (13880, 10), (13881, 10), (13882, 10), (13883, 10)]"
    by blast
  from c1 h3 have "estimate_history (ticket_history sample_env ''estimatedhours'' ?t1)
     (t_time ?t1) = Some 10"
    by blast
  then have e3: "estimate_history (ticket_history sample_env ''estimatedhours'' ?t1) 13879 = Some 10"
    unfolding c13 .
  from c6 h4 have "estimate_history (ticket_history sample_env ''estimatedhours'' ?t6)
     (t_time ?t6) = Some (latest_estimate sample_env ''estimatedhours'' ?t6)"
    by blast
  then have e4: "estimate_history (ticket_history sample_env ''estimatedhours'' ?t6) 13879 = Some 10"
    unfolding c13 l6 .
  from e1 e2 l1 e3 e4 show ?thesis by blast
qed

text \<open>
  C3. Both methods return a timetable, never an error, whose keys are the dates of the
  window from the start date to the end date in order, each once and none missing: for
  a start date not after the end date that is (enddate - startdate).days + 1 entries.
  The first loop sets every one of them to Decimal 0, which is what an empty ticket
  list returns.
\<close>

theorem C3_window_coverage:
  "\<exists>remaining spent.
     calculate_timetable e opts tickets = Inr remaining \<and>
     calculate_timetable_spent e opts tickets = Inr spent \<and>
     map fst remaining = [startdate opts..enddate opts] \<and>
     map fst spent = [startdate opts..enddate opts] \<and>
     (startdate opts \<le> enddate opts \<longrightarrow>
        int (length remaining) = enddate opts - startdate opts + 1 \<and>
        int (length spent) = enddate opts - startdate opts + 1) \<and>
     init_timetable (startdate opts) (enddate opts) [] =
       map (\<lambda>d. (d, 0)) [startdate opts..enddate opts] \<and>
     calculate_timetable e opts [] = Inr (map (\<lambda>d. (d, 0)) [startdate opts..enddate opts]) \<and>
     calculate_timetable_spent e opts [] =
       Inr (map (\<lambda>d. (d, 0)) [startdate opts..enddate opts])"
proof -
  obtain remaining where r: "calculate_timetable e opts tickets = Inr remaining"
    and rk: "map fst remaining = [startdate opts..enddate opts]"
    using calculate_timetable_keys by blast
  obtain spent where s: "calculate_timetable_spent e opts tickets = Inr spent"
    and sk: "map fst spent = [startdate opts..enddate opts]"
    using calculate_timetable_spent_keys by blast
  have "length remaining = length (map fst remaining)" by simp
  then have rl: "length remaining = nat (enddate opts - startdate opts + 1)"
    unfolding rk by simp
  have "length spent = length (map fst spent)" by simp
  then have sl: "length spent = nat (enddate opts - startdate opts + 1)"
    unfolding sk by simp
  show ?thesis
    using r rk s sk rl sl
    by (simp add: init_timetable_empty calculate_timetable_def calculate_timetable_spent_def)
qed

theorem C3_window_coverage_witness:
  "startdate sample_opts \<le> enddate sample_opts \<and>
   (\<exists>remaining spent.
      calculate_timetable sample_env sample_opts [sample_ticket 1 ''new'' ''10''] = Inr remaining \<and>
      calculate_timetable_spent sample_env sample_opts [sample_ticket 1 ''new'' ''10''] = Inr spent \<and>
      map fst remaining = [13879, 13880, 13881, 13882, 13883] \<and>
      map fst spent = [13879, 13880, 13881, 13882, 13883] \<and>
      length remaining = 5 \<and> length spent = 5)"
proof -
  have w: "startdate sample_opts = 13879" "enddate sample_opts = 13883"
    by (simp_all add: sample_opts_def)
  have u: "[13879..13883] = [13879, 13880, 13881, 13882, 13883 :: int]"
    by (simp add: upto_rec1)
  show ?thesis
    using C3_window_coverage [of sample_env sample_opts "[sample_ticket 1 ''new'' ''10'']"]
    unfolding w u by auto
qed

text \<open>
  C9. A ticket created after the end date makes the last loop of either method run no
  iteration: the timetable is returned as it was, so such tickets can be dropped from
  the list without changing the result. For any tickets and creation dates both methods
  return a timetable over the unchanged keys of the window: no missing key is read and
  no unset carried value is added.
\<close>

theorem C9_no_error:
  "(enddate opts < t_time t \<longrightarrow>
      remaining_ticket e opts timetable t = Inr timetable \<and>
      spent_ticket e opts timetable t = Inr timetable) \<and>
   calculate_timetable e opts tickets =
     calculate_timetable e opts (filter (\<lambda>t. t_time t \<le> enddate opts) tickets) \<and>
   calculate_timetable_spent e opts tickets =
     calculate_timetable_spent e opts (filter (\<lambda>t. t_time t \<le> enddate opts) tickets) \<and>
   (\<exists>remaining. calculate_timetable e opts tickets = Inr remaining \<and>
      map fst remaining = [startdate opts..enddate opts]) \<and>
   (\<exists>spent. calculate_timetable_spent e opts tickets = Inr spent \<and>
      map fst spent = [startdate opts..enddate opts])"
proof -
  have late_r: "remaining_ticket e opts tt t' = Inr tt"
    if "\<not> t_time t' \<le> enddate opts" for tt t'
    using that by (simp add: remaining_ticket_late)
  have late_s: "spent_ticket e opts tt t' = Inr tt"
    if "\<not> t_time t' \<le> enddate opts" for tt t'
    using that by (simp add: spent_ticket_late)
  have fr: "calculate_timetable e opts (filter (\<lambda>t. t_time t \<le> enddate opts) tickets) =
            calculate_timetable e opts tickets"
    unfolding calculate_timetable_def by (rule for_tickets_filter) (rule late_r)
  have fs: "calculate_timetable_spent e opts (filter (\<lambda>t. t_time t \<le> enddate opts) tickets) =
            calculate_timetable_spent e opts tickets"
    unfolding calculate_timetable_spent_def by (rule for_tickets_filter) (rule late_s)
  show ?thesis
    using calculate_timetable_keys [of e opts tickets]
      calculate_timetable_spent_keys [of e opts tickets]
    by (simp add: fr fs remaining_ticket_late spent_ticket_late)
qed

theorem C9_no_error_witness:
  "enddate sample_opts < t_time ((sample_ticket 1 ''new'' ''10'')\<lparr>t_time := 13890\<rparr>) \<and>
   calculate_timetable sample_env sample_opts [(sample_ticket 1 ''new'' ''10'')\<lparr>t_time := 13890\<rparr>] =
     Inr [(13879, 0), (13880, 0), (13881, 0), (13882, 0), (13883, 0)] \<and>
   calculate_timetable_spent sample_env sample_opts
       [(sample_ticket 1 ''new'' ''10'')\<lparr>t_time := 13890\<rparr>] =
     Inr [(13879, 0), (13880, 0), (13881, 0), (13882, 0), (13883, 0)]"
proof -
  have i: "init_timetable 13879 13883 [] = [(13879, 0), (13880, 0), (13881, 0), (13882, 0), (13883, 0)]"
    by (simp add: init_timetable.simps)
  show ?thesis
    using C9_no_error [of sample_opts "(sample_ticket 1 ''new'' ''10'')\<lparr>t_time := 13890\<rparr>"
        sample_env "[]" "[(sample_ticket 1 ''new'' ''10'')\<lparr>t_time := 13890\<rparr>]"]
    by (simp add: sample_opts_def sample_ticket_def calculate_timetable_def
          calculate_timetable_spent_def i)
qed

text \<open>
  C10. In the workload sums a ticket whose status is a closed state, or whose remaining
  value is rejected by \<^verbatim>\<open>float\<close>, leaves both the total and the per-owner dictionary as
  they were: the sums are those of the list without these tickets.
\<close>

theorem C10_workload_exclusion:
  "((py_in (t_status t) (closed_states e) \<or> float_of (t_fields t (remaining_field e)) = None) \<longrightarrow>
      workload_step float_of fadd e st t = st) \<and>
   workload_sums float_of fadd fzero e tickets =
     workload_sums float_of fadd fzero e
       (filter (\<lambda>t. \<not> py_in (t_status t) (closed_states e) \<and>
                    float_of (t_fields t (remaining_field e)) \<noteq> None) tickets)"
proof -
  have skip: "workload_step float_of fadd e s x = s"
    if "\<not> (\<not> py_in (t_status x) (closed_states e) \<and>
            float_of (t_fields x (remaining_field e)) \<noteq> None)" for s x
    using that by (cases s) (auto simp add: workload_step_def)
  have "foldl (workload_step float_of fadd e) (fzero, Map.empty)
          (filter (\<lambda>t. \<not> py_in (t_status t) (closed_states e) \<and>
                    float_of (t_fields t (remaining_field e)) \<noteq> None) tickets) =
        foldl (workload_step float_of fadd e) (fzero, Map.empty) tickets"
    by (rule foldl_filter_skip) (rule skip)
  then show ?thesis
    using skip [of t st] by (auto simp add: workload_sums_def)
qed

theorem C10_workload_exclusion_witness:
  "fst (workload_sums sample_float (+) 0 sample_env
          [sample_ticket 1 ''new'' ''3'', sample_ticket 2 ''closed'' ''5'',
           (sample_ticket 3 ''new'' ''abc'')\<lparr>t_owner := PyStr ''ann''\<rparr>]) = 3 \<and>
   snd (workload_sums sample_float (+) 0 sample_env
          [sample_ticket 1 ''new'' ''3'', sample_ticket 2 ''closed'' ''5'',
           (sample_ticket 3 ''new'' ''abc'')\<lparr>t_owner := PyStr ''ann''\<rparr>]) (PyStr ''joe'') = Some 3 \<and>
   snd (workload_sums sample_float (+) 0 sample_env
          [sample_ticket 1 ''new'' ''3'', sample_ticket 2 ''closed'' ''5'',
           (sample_ticket 3 ''new'' ''abc'')\<lparr>t_owner := PyStr ''ann''\<rparr>]) (PyStr ''ann'') = None"
proof -
  have f: "filter (\<lambda>t. \<not> py_in (t_status t) (closed_states sample_env) \<and>
                    sample_float (t_fields t (remaining_field sample_env)) \<noteq> None)
          [sample_ticket 1 ''new'' ''3'', sample_ticket 2 ''closed'' ''5'',
           (sample_ticket 3 ''new'' ''abc'')\<lparr>t_owner := PyStr ''ann''\<rparr>] =
        [sample_ticket 1 ''new'' ''3'']"
    by (simp add: sample_env_def sample_ticket_def sample_float_def digits_Decimal_samples)
  have "workload_sums sample_float (+) 0 sample_env
          [sample_ticket 1 ''new'' ''3'', sample_ticket 2 ''closed'' ''5'',
           (sample_ticket 3 ''new'' ''abc'')\<lparr>t_owner := PyStr ''ann''\<rparr>] =
        workload_sums sample_float (+) 0 sample_env [sample_ticket 1 ''new'' ''3'']"
    using C10_workload_exclusion [of "sample_ticket 1 ''new'' ''3''" sample_env sample_float
        "(+)" "(0, Map.empty)" 0
        "[sample_ticket 1 ''new'' ''3'', sample_ticket 2 ''closed'' ''5'',
           (sample_ticket 3 ''new'' ''abc'')\<lparr>t_owner := PyStr ''ann''\<rparr>]"]
    unfolding f by simp
  then show ?thesis
    by (simp add: workload_sums_def workload_step_def sample_env_def sample_ticket_def
          sample_float_def digits_Decimal_samples)
qed

text \<open>
  C5. \<^verbatim>\<open>_cast_estimate\<close> gives Decimal 0 for the empty string, None and the number 0, and
  for any other string what \<^verbatim>\<open>Decimal\<close> gives, so None (unknown, not zero) when the string
  is not a number. A row whose new value casts to None leaves the per-day estimate
  dictionary as it was: the dictionary is that of the log without such rows.
\<close>

theorem C5_cast_and_skip:
  "cast_estimate D (PyStr []) = Some 0 \<and>
   cast_estimate D PyNone = Some 0 \<and>
   cast_estimate D (PyInt 0) = Some 0 \<and>
   (s \<noteq> [] \<longrightarrow> cast_estimate D (PyStr s) = D s) \<and>
   (s \<noteq> [] \<and> D s = None \<longrightarrow> cast_estimate D (PyStr s) = None) \<and>
   (cast_estimate D new = None \<longrightarrow>
      estimate_history (history_step D fld h (f, ts, old, new)) = estimate_history h) \<and>
   estimate_history (build_history D fld rows) =
     estimate_history (build_history D fld
       (filter (\<lambda>r. \<not> (fst r = fld \<and> cast_estimate D (row_new r) = None)) rows))"
proof -
  have "estimate_history (history_step D fld h (f, ts, old, new)) = estimate_history h"
    if "cast_estimate D new = None"
    using that by (simp add: history_step_estimate row_new_def)
  then show ?thesis
    using build_estimate_skips [of D fld rows] by (simp add: cast_estimate_def)
qed

theorem C5_cast_and_skip_witness:
  "cast_estimate digits_Decimal (PyStr ''abc'') = None \<and>
   cast_estimate digits_Decimal (PyStr ''0'') = Some 0 \<and>
   estimate_history (build_history digits_Decimal ''estimatedhours'' (sample_changes 4)) 13880 =
     Some 5"
proof -
  have n: "''abc'' \<noteq> []" "''0'' \<noteq> []" by simp_all
  have z: "digits_Decimal ''0'' = Some 0" by (simp add: digits_Decimal_def)
  have c: "cast_estimate digits_Decimal (PyStr ''abc'') = None"
    "cast_estimate digits_Decimal (PyStr ''5'') = Some 5"
    by (simp_all add: cast_estimate_def digits_Decimal_samples)
  have f: "filter (\<lambda>r. \<not> (fst r = ''estimatedhours'' \<and>
                         cast_estimate digits_Decimal (row_new r) = None)) (sample_changes 4) =
           [(''estimatedhours'', 1199268000000000, PyStr ''10'', PyStr ''5'')]"
    by (simp add: sample_changes_def row_new_def c)
  show ?thesis
    using C5_cast_and_skip [of digits_Decimal "''abc''" "PyStr ''abc''" "''estimatedhours''"
        empty_history "''estimatedhours''" 0 PyNone "sample_changes 4"]
      C5_cast_and_skip [of digits_Decimal "''0''" "PyStr ''abc''" "''estimatedhours''"
        empty_history "''estimatedhours''" 0 PyNone "sample_changes 4"]
    unfolding f
    by (simp add: digits_Decimal_samples z build_history_def history_step_def Let_def
          empty_history_def c from_utimestamp_date_def)
qed

text \<open>
  C6, as the code has it. A ticket whose tracked field has no change row adds its
  current estimate E (the cast of its current value, 0 when that is unknown) to every
  day of the window on or after its creation date on which it is open, and nothing on
  the days on which it is closed. When its status has no change row either, it is open
  on all those days or on none, as its current status is not or is a closed state.
  As stated, for every such ticket and every overlapped day, the claim fails for a
  closed ticket.
\<close>

theorem C6_forward_fill:
  assumes unchanged:
    "\<forall>r \<in> set (db_query e (t_id t) (remaining_field e)). fst r \<noteq> remaining_field e"
  shows "\<exists>remaining remaining'.
     calculate_timetable e opts ts = Inr remaining \<and>
     calculate_timetable e opts (ts @ [t]) = Inr remaining' \<and>
     (\<forall>d. startdate opts \<le> d \<and> d \<le> enddate opts \<and> t_time t \<le> d \<longrightarrow>
        map_of remaining d \<noteq> None \<and>
        map_of remaining' d =
          (if open_on e (remaining_field e) t d
           then map_option (\<lambda>x. x + latest_estimate e (remaining_field e) t) (map_of remaining d)
           else map_of remaining d) \<and>
        ((\<forall>r \<in> set (db_query e (t_id t) (remaining_field e)). fst r \<noteq> ''status'') \<longrightarrow>
           open_on e (remaining_field e) t d = (\<not> py_in (t_status t) (closed_states e))))"
proof -
  obtain remaining where r: "calculate_timetable e opts ts = Inr remaining"
    and rk: "map fst remaining = [startdate opts..enddate opts]"
    using calculate_timetable_keys by blast
  from remaining_ticket_result [OF window_keys [OF rk], of e t]
  obtain remaining' where r': "remaining_ticket e opts remaining t = Inr remaining'"
    and m: "\<And>d. map_of remaining' d =
              (if startdate opts \<le> d \<and> t_time t \<le> d \<and> d \<le> enddate opts \<and>
                  open_on e (remaining_field e) t d
               then map_option (\<lambda>x. x + estimate_on e (remaining_field e) t d) (map_of remaining d)
               else map_of remaining d)"
    by blast
  have s: "calculate_timetable e opts (ts @ [t]) = Inr remaining'"
    by (simp add: calculate_timetable_snoc r r')
  have day: "map_of remaining d \<noteq> None \<and>
        map_of remaining' d =
          (if open_on e (remaining_field e) t d
           then map_option (\<lambda>x. x + latest_estimate e (remaining_field e) t) (map_of remaining d)
           else map_of remaining d) \<and>
        ((\<forall>r \<in> set (db_query e (t_id t) (remaining_field e)). fst r \<noteq> ''status'') \<longrightarrow>
           open_on e (remaining_field e) t d = (\<not> py_in (t_status t) (closed_states e)))"
    if w: "startdate opts \<le> d \<and> d \<le> enddate opts \<and> t_time t \<le> d" for d
  proof (intro conjI impI)
    show "map_of remaining d \<noteq> None" using w by (simp add: window_value [OF rk])
    show "map_of remaining' d =
          (if open_on e (remaining_field e) t d
           then map_option (\<lambda>x. x + latest_estimate e (remaining_field e) t) (map_of remaining d)
           else map_of remaining d)"
      using w by (simp add: m estimate_on_unchanged [OF unchanged])
    assume "\<forall>r \<in> set (db_query e (t_id t) (remaining_field e)). fst r \<noteq> ''status''"
    then show "open_on e (remaining_field e) t d = (\<not> py_in (t_status t) (closed_states e))"
      using w by (simp add: open_on_unchanged)
  qed
  show ?thesis
    using r s day by blast
qed

theorem C6_forward_fill_witness:
  "db_query sample_env (t_id (sample_ticket 6 ''new'' ''8'')) (remaining_field sample_env) = [] \<and>
   latest_estimate sample_env (remaining_field sample_env) (sample_ticket 6 ''new'' ''8'') = 8 \<and>
   calculate_timetable sample_env sample_opts [sample_ticket 6 ''new'' ''8''] =
     Inr [(13879, 8), (13880, 8), (13881, 8), (13882, 8), (13883, 8)]"
proof -
  have h: "\<forall>r \<in> set (db_query sample_env (t_id (sample_ticket 6 ''new'' ''8''))
                      (remaining_field sample_env)). fst r \<noteq> remaining_field sample_env"
    by (simp add: sample_defs)
  show ?thesis
    using C6_forward_fill [OF h, of sample_opts "[]"]
    by (simp add: sample_defs eval_defs)
qed

theorem C6_forward_fill_counterexample:
  "db_query sample_env (t_id (sample_ticket 6 ''closed'' ''8'')) (remaining_field sample_env) = [] \<and>
   latest_estimate sample_env (remaining_field sample_env) (sample_ticket 6 ''closed'' ''8'') = 8 \<and>
   t_time (sample_ticket 6 ''closed'' ''8'') = startdate sample_opts \<and>
   calculate_timetable sample_env sample_opts [sample_ticket 6 ''closed'' ''8''] =
     Inr [(13879, 0), (13880, 0), (13881, 0), (13882, 0), (13883, 0)]"
  by (simp add: sample_defs eval_defs)

text \<open>
  C2, as the code has it. For a ticket whose last status change on day D (on or after
  its creation) is to a closed state: on a window day before D on which it is open the
  remaining timetable receives its carried estimate; on a window day from D on it
  receives nothing, as long as no later day up to that day has a status change; and
  the spent timetable receives the carried spent value on every window day on or after
  the creation date, whatever the status. As stated, zero on every day from D onward,
  the claim fails for a ticket that is reopened later.
\<close>

theorem C2_open_closed_policy:
  assumes fld: "remaining_field e \<noteq> ''status''"
      and closes: "changes_on ''status'' D (db_query e (t_id t) (remaining_field e)) \<noteq> []"
                  "py_in (row_new (last (changes_on ''status'' D
                      (db_query e (t_id t) (remaining_field e))))) (closed_states e)"
      and created: "t_time t \<le> D"
  shows "\<exists>remaining remaining' spent spent'.
     calculate_timetable e opts ts = Inr remaining \<and>
     calculate_timetable e opts (ts @ [t]) = Inr remaining' \<and>
     calculate_timetable_spent e opts ts = Inr spent \<and>
     calculate_timetable_spent e opts (ts @ [t]) = Inr spent' \<and>
     (\<forall>d. startdate opts \<le> d \<and> d \<le> enddate opts \<longrightarrow>
        map_of remaining d \<noteq> None \<and> map_of spent d \<noteq> None \<and>
        (t_time t \<le> d \<and> d < D \<and> open_on e (remaining_field e) t d \<longrightarrow>
           map_of remaining' d =
             map_option (\<lambda>x. x + estimate_on e (remaining_field e) t d) (map_of remaining d)) \<and>
        (D \<le> d \<and>
         (\<forall>d'. D < d' \<and> d' \<le> d \<longrightarrow>
            changes_on ''status'' d' (db_query e (t_id t) (remaining_field e)) = []) \<longrightarrow>
           map_of remaining' d = map_of remaining d) \<and>
        (t_time t \<le> d \<longrightarrow>
           map_of spent' d =
             map_option (\<lambda>x. x + estimate_on e (spent_field e) t d) (map_of spent d)))"
proof -
  obtain remaining where r: "calculate_timetable e opts ts = Inr remaining"
    and rk: "map fst remaining = [startdate opts..enddate opts]"
    using calculate_timetable_keys by blast
  obtain spent where s: "calculate_timetable_spent e opts ts = Inr spent"
    and sk: "map fst spent = [startdate opts..enddate opts]"
    using calculate_timetable_spent_keys by blast
  from remaining_ticket_result [OF window_keys [OF rk], of e t]
  obtain remaining' where r': "remaining_ticket e opts remaining t = Inr remaining'"
    and rm: "\<And>d. map_of remaining' d =
              (if startdate opts \<le> d \<and> t_time t \<le> d \<and> d \<le> enddate opts \<and>
                  open_on e (remaining_field e) t d
               then map_option (\<lambda>x. x + estimate_on e (remaining_field e) t d) (map_of remaining d)
               else map_of remaining d)"
    by blast
  from spent_ticket_result [OF window_keys [OF sk], of e t]
  obtain spent' where s': "spent_ticket e opts spent t = Inr spent'"
    and sm: "\<And>d. map_of spent' d =
              (if startdate opts \<le> d \<and> t_time t \<le> d \<and> d \<le> enddate opts
               then map_option (\<lambda>x. x + estimate_on e (spent_field e) t d) (map_of spent d)
               else map_of spent d)"
    by blast
  have rs: "calculate_timetable e opts (ts @ [t]) = Inr remaining'"
    by (simp add: calculate_timetable_snoc r r')
  have ss: "calculate_timetable_spent e opts (ts @ [t]) = Inr spent'"
    by (simp add: calculate_timetable_spent_snoc s s')
  have closed: "map_of remaining' d = map_of remaining d"
    if "D \<le> d" "\<forall>d'. D < d' \<and> d' \<le> d \<longrightarrow>
            changes_on ''status'' d' (db_query e (t_id t) (remaining_field e)) = []" for d
    using closed_from [OF fld closes created that] by (simp add: rm)
  have day: "map_of remaining d \<noteq> None \<and> map_of spent d \<noteq> None \<and>
        (t_time t \<le> d \<and> d < D \<and> open_on e (remaining_field e) t d \<longrightarrow>
           map_of remaining' d =
             map_option (\<lambda>x. x + estimate_on e (remaining_field e) t d) (map_of remaining d)) \<and>
        (D \<le> d \<and>
         (\<forall>d'. D < d' \<and> d' \<le> d \<longrightarrow>
            changes_on ''status'' d' (db_query e (t_id t) (remaining_field e)) = []) \<longrightarrow>
           map_of remaining' d = map_of remaining d) \<and>
        (t_time t \<le> d \<longrightarrow>
           map_of spent' d =
             map_option (\<lambda>x. x + estimate_on e (spent_field e) t d) (map_of spent d))"
    if w: "startdate opts \<le> d \<and> d \<le> enddate opts" for d
  proof (intro conjI impI)
    show "map_of remaining d \<noteq> None" using w by (simp add: window_value [OF rk])
    show "map_of spent d \<noteq> None" using w by (simp add: window_value [OF sk])
    show "map_of remaining' d =
             map_option (\<lambda>x. x + estimate_on e (remaining_field e) t d) (map_of remaining d)"
      if "t_time t \<le> d \<and> d < D \<and> open_on e (remaining_field e) t d"
      using w that by (simp add: rm)
    show "map_of remaining' d = map_of remaining d"
      if "D \<le> d \<and> (\<forall>d'. D < d' \<and> d' \<le> d \<longrightarrow>
            changes_on ''status'' d' (db_query e (t_id t) (remaining_field e)) = [])"
      using closed that by blast
    show "map_of spent' d =
             map_option (\<lambda>x. x + estimate_on e (spent_field e) t d) (map_of spent d)"
      if "t_time t \<le> d"
      using w that by (simp add: sm)
  qed
  show ?thesis
    using r rs s ss day by blast
qed

theorem C2_open_closed_policy_witness:
  "remaining_field sample_env \<noteq> ''status'' \<and>
   t_time (sample_ticket 3 ''closed'' ''5'') \<le> 13881 \<and>
   py_in (row_new (last (changes_on ''status'' 13881
      (db_query sample_env (t_id (sample_ticket 3 ''closed'' ''5'')) (remaining_field sample_env)))))
      (closed_states sample_env) \<and>
   calculate_timetable sample_env sample_opts [sample_ticket 3 ''closed'' ''5''] =
     Inr [(13879, 5), (13880, 5), (13881, 0), (13882, 0), (13883, 0)] \<and>
   calculate_timetable_spent sample_env sample_opts [sample_ticket 3 ''closed'' ''5''] =
     Inr [(13879, 2), (13880, 2), (13881, 2), (13882, 2), (13883, 2)]"
proof -
  have rows: "db_query sample_env (t_id (sample_ticket 3 ''closed'' ''5''))
                (remaining_field sample_env) =
              [(''status'', 1199350000000000, PyStr ''new'', PyStr ''closed'')]"
    by (simp add: sample_defs)
  have ch: "changes_on ''status'' 13881 [(''status'', 1199350000000000, PyStr ''new'', PyStr ''closed'')] =
            [(''status'', 1199350000000000, PyStr ''new'', PyStr ''closed'')]"
    by (simp add: changes_on_def row_time_def from_utimestamp_date_def)
  have f: "remaining_field sample_env \<noteq> ''status''" by (simp add: sample_defs)
  have c1: "changes_on ''status'' 13881 (db_query sample_env (t_id (sample_ticket 3 ''closed'' ''5''))
                (remaining_field sample_env)) \<noteq> []"
    unfolding rows ch by simp
  have c2: "py_in (row_new (last (changes_on ''status'' 13881
      (db_query sample_env (t_id (sample_ticket 3 ''closed'' ''5'')) (remaining_field sample_env)))))
      (closed_states sample_env)"
    unfolding rows ch by (simp add: row_new_def sample_defs)
  have cr: "t_time (sample_ticket 3 ''closed'' ''5'') \<le> 13881" by (simp add: sample_defs)
  show ?thesis
    using C2_open_closed_policy [OF f c1 c2 cr, of sample_opts "[]"] f c2 cr
    by (simp add: sample_defs eval_defs)
qed

theorem C2_open_closed_policy_counterexample:
  "py_in (row_new (last (changes_on ''status'' 13880
      (db_query sample_env (t_id (sample_ticket 2 ''reopened'' ''5'')) (remaining_field sample_env)))))
      (closed_states sample_env) \<and>
   calculate_timetable sample_env sample_opts [sample_ticket 2 ''reopened'' ''5''] =
     Inr [(13879, 5), (13880, 0), (13881, 0), (13882, 5), (13883, 5)]"
proof -
  have rows: "db_query sample_env (t_id (sample_ticket 2 ''reopened'' ''5''))
                (remaining_field sample_env) =
              [(''status'', 1199268000000000, PyStr ''new'', PyStr ''closed''),
               (''status'', 1199440800000000, PyStr ''closed'', PyStr ''reopened'')]"
    by (simp add: sample_defs)
  have c: "py_in (row_new (last (changes_on ''status'' 13880
      (db_query sample_env (t_id (sample_ticket 2 ''reopened'' ''5'')) (remaining_field sample_env)))))
      (closed_states sample_env)"
    unfolding rows
    by (simp add: changes_on_def row_time_def row_new_def from_utimestamp_date_def sample_defs)
  have "calculate_timetable sample_env sample_opts [sample_ticket 2 ''reopened'' ''5''] =
     Inr [(13879, 5), (13880, 0), (13881, 0), (13882, 5), (13883, 5)]"
    by (simp add: sample_defs eval_defs)
  with c show ?thesis by simp
qed

text \<open>
  C4, as the code has it. With the rows in ascending order of time and a tracked field
  other than status: when several status changes fall on one day, the per-day status
  holds the new value of the last of them, and that decides whether the ticket is open
  on that day; when several changes of the tracked field fall on one day, the per-day
  estimate holds the cast new value of the last of those whose new value casts to a
  number, and that is the carried estimate of the day. As stated, for the last change
  of the day whatever its value, the claim fails when the last new value is not a
  number: the row is skipped and the earlier value stays.
\<close>

theorem C4_same_day_last_write:
  assumes fld: "fld \<noteq> ''status''"
      and ascending: "sorted (map row_time (db_query e (t_id t) fld))"
  shows "(changes_on ''status'' d (db_query e (t_id t) fld) \<noteq> [] \<longrightarrow>
            status_history (ticket_history e fld t) d =
              Some (row_new (last (changes_on ''status'' d (db_query e (t_id t) fld)))) \<and>
            (\<forall>r \<in> set (changes_on ''status'' d (db_query e (t_id t) fld)).
               row_time r \<le> row_time (last (changes_on ''status'' d (db_query e (t_id t) fld)))) \<and>
            (t_time t \<le> d \<longrightarrow>
               open_on e fld t d =
                 (\<not> py_in (row_new (last (changes_on ''status'' d (db_query e (t_id t) fld))))
                      (closed_states e)))) \<and>
         (numeric_changes_on (Decimal_str e) fld d (db_query e (t_id t) fld) \<noteq> [] \<longrightarrow>
            estimate_history (ticket_history e fld t) d =
              cast_estimate (Decimal_str e)
                (row_new (last (numeric_changes_on (Decimal_str e) fld d (db_query e (t_id t) fld)))) \<and>
            (\<forall>r \<in> set (numeric_changes_on (Decimal_str e) fld d (db_query e (t_id t) fld)).
               row_time r \<le>
               row_time (last (numeric_changes_on (Decimal_str e) fld d (db_query e (t_id t) fld)))) \<and>
            (t_time t \<le> d \<longrightarrow>
               Some (estimate_on e fld t d) =
                 cast_estimate (Decimal_str e)
                   (row_new (last (numeric_changes_on (Decimal_str e) fld d
                      (db_query e (t_id t) fld))))))"
proof (intro conjI impI ballI)
  let ?rows = "db_query e (t_id t) fld"
  let ?cs = "changes_on ''status'' d ?rows"
  let ?ns = "numeric_changes_on (Decimal_str e) fld d ?rows"
  {
    assume ne: "?cs \<noteq> []"
    show st: "status_history (ticket_history e fld t) d = Some (row_new (last ?cs))"
      by (rule ticket_status_changed [OF fld ne])
    {
      fix r assume "r \<in> set ?cs"
      then show "row_time r \<le> row_time (last ?cs)"
        using sorted_le_last [OF sorted_changes_on [OF ascending]] by blast
    }
    {
      assume "t_time t \<le> d"
      then have "carry_from None (open_history (closed_states e)
                   (status_history (ticket_history e fld t))) (t_time t) d =
                 Some (\<not> py_in (row_new (last ?cs)) (closed_states e))"
        by (rule carry_from_at) (simp add: open_history_def st)
      then show "open_on e fld t d = (\<not> py_in (row_new (last ?cs)) (closed_states e))"
        by (auto simp add: open_on_def)
    }
  }
  {
    assume ne: "?ns \<noteq> []"
    show es: "estimate_history (ticket_history e fld t) d =
          cast_estimate (Decimal_str e) (row_new (last ?ns))"
      by (rule ticket_estimate_changed [OF ne])
    {
      fix r assume "r \<in> set ?ns"
      then show "row_time r \<le> row_time (last ?ns)"
        using sorted_le_last [OF sorted_numeric_changes_on [OF ascending]] by blast
    }
    {
      assume cr: "t_time t \<le> d"
      have "last ?ns \<in> set ?ns" using ne by simp
      then have "cast_estimate (Decimal_str e) (row_new (last ?ns)) \<noteq> None"
        by (simp add: numeric_changes_on_def)
      then obtain v where v: "cast_estimate (Decimal_str e) (row_new (last ?ns)) = Some v"
        by blast
      have "carry_from None (estimate_history (ticket_history e fld t)) (t_time t) d = Some v"
        using cr by (rule carry_from_at) (simp add: es v)
      then show "Some (estimate_on e fld t d) =
          cast_estimate (Decimal_str e) (row_new (last ?ns))"
        by (simp add: estimate_on_def v)
    }
  }
qed

theorem C4_same_day_last_write_witness:
  "''estimatedhours'' \<noteq> ''status'' \<and>
   sorted (map row_time (db_query sample_env (t_id (sample_ticket 5 ''reopened'' ''7''))
                           ''estimatedhours'')) \<and>
   changes_on ''status'' 13880
       (db_query sample_env (t_id (sample_ticket 5 ''reopened'' ''7'')) ''estimatedhours'') =
     [(''status'', 1199268000000000, PyStr ''new'', PyStr ''closed''),
      (''status'', 1199286000000000, PyStr ''closed'', PyStr ''reopened'')] \<and>
   numeric_changes_on (Decimal_str sample_env) ''estimatedhours'' 13880
       (db_query sample_env (t_id (sample_ticket 5 ''reopened'' ''7'')) ''estimatedhours'') =
     [(''estimatedhours'', 1199268000000000, PyStr ''10'', PyStr ''5''),
      (''estimatedhours'', 1199286000000000, PyStr ''5'', PyStr ''7'')] \<and>
   status_history (ticket_history sample_env ''estimatedhours'' (sample_ticket 5 ''reopened'' ''7''))
       13880 = Some (PyStr ''reopened'') \<and>
   open_on sample_env ''estimatedhours'' (sample_ticket 5 ''reopened'' ''7'') 13880 \<and>
   estimate_history (ticket_history sample_env ''estimatedhours'' (sample_ticket 5 ''reopened'' ''7''))
       13880 = Some 7 \<and>
   estimate_on sample_env ''estimatedhours'' (sample_ticket 5 ''reopened'' ''7'') 13880 = 7"
proof -
  let ?t = "sample_ticket 5 ''reopened'' ''7''"
  have rows: "db_query sample_env (t_id ?t) ''estimatedhours'' =
     [(''estimatedhours'', 1199268000000000, PyStr ''10'', PyStr ''5''),
      (''status'', 1199268000000000, PyStr ''new'', PyStr ''closed''),
      (''estimatedhours'', 1199286000000000, PyStr ''5'', PyStr ''7''),
      (''status'', 1199286000000000, PyStr ''closed'', PyStr ''reopened'')]"
    by (simp add: sample_defs)
  have f: "''estimatedhours'' \<noteq> ''status''" by simp
  have asc: "sorted (map row_time (db_query sample_env (t_id ?t) ''estimatedhours''))"
    unfolding rows by (simp add: row_time_def)
  have cs: "changes_on ''status'' 13880 (db_query sample_env (t_id ?t) ''estimatedhours'') =
     [(''status'', 1199268000000000, PyStr ''new'', PyStr ''closed''),
      (''status'', 1199286000000000, PyStr ''closed'', PyStr ''reopened'')]"
    unfolding rows by (simp add: changes_on_def row_time_def from_utimestamp_date_def)
  have D: "Decimal_str sample_env = digits_Decimal" by (simp add: sample_defs)
  have ns: "numeric_changes_on (Decimal_str sample_env) ''estimatedhours'' 13880
       (db_query sample_env (t_id ?t) ''estimatedhours'') =
     [(''estimatedhours'', 1199268000000000, PyStr ''10'', PyStr ''5''),
      (''estimatedhours'', 1199286000000000, PyStr ''5'', PyStr ''7'')]"
    unfolding rows D
    by (simp add: numeric_changes_on_def changes_on_def row_time_def row_new_def
          from_utimestamp_date_def cast_estimate_def digits_Decimal_samples)
  have cr: "t_time ?t \<le> 13880" by (simp add: sample_defs)
  have cl: "closed_states sample_env = [''closed'']" by (simp add: sample_defs)
  show ?thesis
    using C4_same_day_last_write [OF f asc, of 13880] asc cr
    unfolding cs ns
    by (simp add: row_new_def cast_estimate_def D digits_Decimal_samples cl)
qed

theorem C4_same_day_last_write_counterexample:
  "changes_on ''estimatedhours'' 13880
       (db_query sample_env (t_id (sample_ticket 4 ''new'' ''abc'')) ''estimatedhours'') =
     [(''estimatedhours'', 1199268000000000, PyStr ''10'', PyStr ''5''),
      (''estimatedhours'', 1199286000000000, PyStr ''5'', PyStr ''abc'')] \<and>
   cast_estimate (Decimal_str sample_env) (PyStr ''abc'') = None \<and>
   estimate_history (ticket_history sample_env ''estimatedhours'' (sample_ticket 4 ''new'' ''abc''))
       13880 = Some 5 \<and>
   calculate_timetable sample_env sample_opts [sample_ticket 4 ''new'' ''abc''] =
     Inr [(13879, 10), (13880, 5), (13881, 5), (13882, 5), (13883, 5)]"
proof -
  let ?t = "sample_ticket 4 ''new'' ''abc''"
  have rows: "db_query sample_env (t_id ?t) ''estimatedhours'' =
     [(''estimatedhours'', 1199268000000000, PyStr ''10'', PyStr ''5''),
      (''estimatedhours'', 1199286000000000, PyStr ''5'', PyStr ''abc'')]"
    by (simp add: sample_defs)
  have a: "changes_on ''estimatedhours'' 13880 (db_query sample_env (t_id ?t) ''estimatedhours'') =
     [(''estimatedhours'', 1199268000000000, PyStr ''10'', PyStr ''5''),
      (''estimatedhours'', 1199286000000000, PyStr ''5'', PyStr ''abc'')]"
    unfolding rows by (simp add: changes_on_def row_time_def from_utimestamp_date_def)
  have b: "cast_estimate (Decimal_str sample_env) (PyStr ''abc'') = None"
    by (simp add: cast_estimate_def sample_defs)
  have c: "estimate_history (ticket_history sample_env ''estimatedhours'' ?t) 13880 = Some 5"
    by (simp add: sample_defs ticket_history_def build_history_def history_step_def
          empty_history_def seed_creation_def latest_estimate_def cast_estimate_def
          from_utimestamp_date_def Let_def)
  have d: "calculate_timetable sample_env sample_opts [?t] =
     Inr [(13879, 10), (13880, 5), (13881, 5), (13882, 5), (13883, 5)]"
    by (simp add: sample_defs eval_defs)
  from a b c d show ?thesis by simp
qed

text \<open>
  C7, as the code has it. For a timetable of at least two days whose values all equal a
  positive v, with \<^verbatim>\<open>int(expected)\<close> not above v, \<^verbatim>\<open>_scale_data\<close> returns maxhours v and
  the y-coordinate "100.00" for every day that is not after today (the days after
  today get "-1"). As stated, for every shared value, the claim fails for the value 0,
  where maxhours is 100 and the y-coordinates are "0.00".
\<close>

theorem C7_scaling_equal_values:
  assumes keys: "distinct (map fst tt)"
      and days: "2 \<le> length tt"
      and equal: "\<forall>p \<in> set tt. snd p = v"
      and positive: "0 < v"
      and expected: "int_str e (expected opts) = Some ex" "of_int ex \<le> v"
  shows "\<exists>xdata. scale_data e opts tt =
           Inr (xdata,
                map (\<lambda>d. if today opts < d then ''-1'' else ''100.00'') (sort (map fst tt)),
                v)"
proof -
  have ne: "tt \<noteq> []" and len: "length tt \<noteq> 1" using days by auto
  have m: "maxhours_of ex tt = v"
    by (rule maxhours_of_equal [OF ne equal positive expected(2)])
  have pct: "str_decimal (round_decimal (snd p * 100 / v)) = ''100.00''"
    if "p \<in> set (sort_key fst tt)" for p
  proof -
    have "snd p = v" using that equal by simp
    then have "snd p * 100 / v = 100" using positive by simp
    then show ?thesis by (simp add: str_decimal_100)
  qed
  have "map (\<lambda>p. if today opts < fst p then ''-1''
                  else str_decimal (round_decimal (snd p * 100 / maxhours_of ex tt)))
          (sort_key fst tt) =
        map (\<lambda>p. if today opts < fst p then ''-1'' else ''100.00'') (sort_key fst tt)"
    unfolding m by (rule map_cong) (simp_all add: pct del: set_sort)
  also have "\<dots> = map (\<lambda>d. if today opts < d then ''-1'' else ''100.00'')
                     (map fst (sort_key fst tt))"
    by (simp add: comp_def)
  also have "\<dots> = map (\<lambda>d. if today opts < d then ''-1'' else ''100.00'') (sort (map fst tt))"
    by (simp only: map_sort_key)
  finally have y: "map (\<lambda>p. if today opts < fst p then ''-1''
                  else str_decimal (round_decimal (snd p * 100 / maxhours_of ex tt)))
          (sort_key fst tt) =
        map (\<lambda>d. if today opts < d then ''-1'' else ''100.00'') (sort (map fst tt))" .
  show ?thesis
    using scale_data_result [OF keys expected(1) len] unfolding m y [unfolded m] by blast
qed

theorem C7_scaling_equal_values_witness:
  "distinct (map fst ([(13879, 8), (13880, 8), (13881, 8)] :: timetable)) \<and>
   int_str sample_env (expected sample_opts) = Some 0 \<and>
   scale_data sample_env sample_opts [(13879, 8), (13880, 8), (13881, 8)] =
     Inr ([''0.00'', ''50.00'', ''100.00''], [''100.00'', ''100.00'', ''100.00''], 8)"
proof -
  have k: "distinct (map fst ([(13879, 8), (13880, 8), (13881, 8)] :: timetable))" by simp
  have n: "2 \<le> length ([(13879, 8), (13880, 8), (13881, 8)] :: timetable)" by simp
  have q: "\<forall>p \<in> set ([(13879, 8), (13880, 8), (13881, 8)] :: timetable). snd p = 8" by simp
  have p: "(0 :: rat) < 8" by simp
  have x: "int_str sample_env (expected sample_opts) = Some 0" by (simp add: sample_defs)
  have l: "of_int 0 \<le> (8 :: rat)" by simp
  have direct: "scale_data sample_env sample_opts [(13879, 8), (13880, 8), (13881, 8)] =
     Inr ([''0.00'', ''50.00'', ''100.00''], [''100.00'', ''100.00'', ''100.00''], 8)"
    by (simp add: scale_data_def maxhours_of_def scale_y_def scale_x_def dict_get_def
          decimal_div_def sample_defs Let_def str_examples str_decimal_100)
  show ?thesis
    using C7_scaling_equal_values [OF k n q p x l] k x direct by simp
qed

theorem C7_scaling_equal_values_counterexample:
  "scale_data sample_env sample_opts [(13879, 0), (13880, 0)] =
     Inr ([''0.00'', ''100.00''], [''0.00'', ''0.00''], 100)"
  by (simp add: scale_data_def maxhours_of_def scale_y_def scale_x_def dict_get_def
        decimal_div_def sample_defs Let_def str_examples str_decimal_100)

text \<open>
  C8. When \<^verbatim>\<open>_scale_data\<close> returns (the expected option is an integer and the timetable
  does not have exactly one day), the y-coordinate of each day, in date order, is "-1"
  if the day is after today and the rounded percentage of the peak otherwise; no
  percentage is printed as "-1". With three days after today the y-coordinates are the
  percentages of all days but the last three, followed by three "-1".
\<close>

theorem C8_future_masking:
  assumes keys: "distinct (map fst tt)"
      and expected: "int_str e (expected opts) = Some ex"
      and days: "length tt \<noteq> 1"
  shows "\<exists>xdata ydata.
     scale_data e opts tt = Inr (xdata, ydata, maxhours_of ex tt) \<and>
     ydata = map (\<lambda>p. if today opts < fst p then ''-1''
                       else str_decimal (round_decimal (snd p * 100 / maxhours_of ex tt)))
               (sort_key fst tt) \<and>
     (\<forall>q. str_decimal q \<noteq> ''-1'') \<and>
     (length (filter (\<lambda>p. today opts < fst p) tt) = 3 \<longrightarrow>
        ydata = map (\<lambda>p. str_decimal (round_decimal (snd p * 100 / maxhours_of ex tt)))
                  (take (length tt - 3) (sort_key fst tt)) @ [''-1'', ''-1'', ''-1''])"
proof -
  let ?ps = "sort_key fst tt"
  let ?pct = "\<lambda>p :: date \<times> rat. str_decimal (round_decimal (snd p * 100 / maxhours_of ex tt))"
  let ?y = "map (\<lambda>p. if today opts < fst p then ''-1'' else ?pct p) ?ps"
  have srt: "sorted (map fst ?ps)" by (simp add: map_sort_key)
  have three: "?y = map ?pct (take (length tt - 3) ?ps) @ [''-1'', ''-1'', ''-1'']"
    if "length (filter (\<lambda>p. today opts < fst p) tt) = 3"
  proof -
    have c: "length (filter (\<lambda>p. today opts < fst p) ?ps) = 3"
      using that by (simp only: count_after_sorted)
    have r: "replicate 3 ''-1'' = [''-1'', ''-1'', ''-1'']"
      by (simp add: numeral_3_eq_3)
    show ?thesis
      using mask_sorted [OF srt, of "today opts" ?pct "''-1''"]
      unfolding c r by (simp add: take_map)
  qed
  show ?thesis
    using scale_data_result [OF keys expected days] three
    by (simp add: str_decimal_not_sentinel)
qed

theorem C8_future_masking_witness:
  "distinct (map fst ([(13879, 8), (13880, 8), (13881, 4), (13882, 4), (13883, 4)] :: timetable)) \<and>
   length (filter (\<lambda>p. today (sample_opts\<lparr>today := 13880\<rparr>) < fst p)
      ([(13879, 8), (13880, 8), (13881, 4), (13882, 4), (13883, 4)] :: timetable)) = 3 \<and>
   scale_data sample_env (sample_opts\<lparr>today := 13880\<rparr>)
       [(13879, 8), (13880, 8), (13881, 4), (13882, 4), (13883, 4)] =
     Inr ([''0.00'', ''25.00'', ''50.00'', ''75.00'', ''100.00''],
          [''100.00'', ''100.00'', ''-1'', ''-1'', ''-1''], 8)"
proof -
  let ?tt = "([(13879, 8), (13880, 8), (13881, 4), (13882, 4), (13883, 4)] :: timetable)"
  have k: "distinct (map fst ?tt)" by simp
  have x: "int_str sample_env (expected (sample_opts\<lparr>today := 13880\<rparr>)) = Some 0"
    by (simp add: sample_defs)
  have n: "length ?tt \<noteq> 1" by simp
  have c: "length (filter (\<lambda>p. today (sample_opts\<lparr>today := 13880\<rparr>) < fst p) ?tt) = 3"
    by (simp add: sample_defs)
  have direct: "scale_data sample_env (sample_opts\<lparr>today := 13880\<rparr>) ?tt =
     Inr ([''0.00'', ''25.00'', ''50.00'', ''75.00'', ''100.00''],
          [''100.00'', ''100.00'', ''-1'', ''-1'', ''-1''], 8)"
    by (simp add: scale_data_def maxhours_of_def scale_y_def scale_x_def dict_get_def
          decimal_div_def sample_defs Let_def str_examples str_decimal_100)
  show ?thesis
    using C8_future_masking [OF k x n] k c direct by simp
qed

end
